theory Spec2Isabelle
  imports Main "HOL-Library.Multiset"
begin

section \<open>Data model (types.ts)\<close>

datatype Role = WEREWOLF | VILLAGER | SEER | WITCH | HUNTER

datatype GamePhase =
    SETUP | NIGHT_START | NIGHT_WEREWOLF | NIGHT_SEER | NIGHT_WITCH | NIGHT_END
  | DAY_ANNOUNCE | DAY_DISCUSS | DAY_VOTE | DAY_EXECUTE | GAME_OVER

text \<open>
  The winner field has the literal type \<^verbatim>\<open>'WEREWOLF' | 'VILLAGER' | null\<close>; the two
  literals are the constructors of \<open>Faction\<close>, null is \<open>None\<close>.
\<close>

datatype Faction = WEREWOLF_WINS | VILLAGER_WINS

text \<open>
  Player ids (\<^verbatim>\<open>id: string\<close>) are strings; a field of type \<^verbatim>\<open>string | null\<close> is a
  \<open>string option\<close>. The field \<^verbatim>\<open>id\<close> is called \<open>player_id\<close> here, since \<open>id\<close> is
  the identity function of HOL.

  Ids, log ids and URLs are made of ASCII characters by the code. Names and texts come
  from the keyboard and from the narration and dialogue services: such a JavaScript
  string is the list of its UTF-16 code units.
\<close>

type_synonym jsString = "nat list"

record Player =
  player_id :: string
  name :: jsString
  role :: Role
  isBot :: bool
  isAlive :: bool
  isDying :: bool
  isProtected :: bool
  isPoisoned :: bool
  hasActed :: bool
  voteTargetId :: "string option"
  avatarUrl :: string

text \<open>
  The message literals of the source are Chinese text. Each literal is named by a
  constructor; a template literal carries the value interpolated into it (the name found
  by \<^verbatim>\<open>find(...)?.name\<close>, which is undefined when no player matches). Text that comes
  from the narration and dialogue services or from the chat box is \<open>Free_text\<close>.
\<close>

datatype LogText =
    Wolves_wiped_out
  | Wolves_outnumber
  | Werewolves_wake
  | Seer_wakes
  | Witch_wakes
  | Discussion_opens
  | Everyone_votes
  | You_are_dead_watching
  | Was_executed jsString
  | Vote_tied
  | You_attacked "jsString option"
  | Seer_verdict jsString bool
  | You_voted_for "jsString option"
  | Antidote_used
  | Poison_used
  | Free_text jsString

datatype Sender = SYSTEM | HOST | CHECK_RESULT | Speaker jsString

datatype LogType = normal | narrative | action | alert

record LogMessage =
  log_id :: string
  sender :: Sender
  log_text :: LogText
  log_type :: LogType

record WitchPotions =
  save :: bool
  poison :: bool

record SeerCheck =
  checked_name :: jsString
  isWerewolf :: bool

record GameState =
  phase :: GamePhase
  players :: "Player list"
  humanPlayerId :: "string option"
  dayCount :: nat
  logs :: "LogMessage list"
  winner :: "Faction option"
  witchPotions :: WitchPotions
  lastKilledId :: "string option"
  seerCheckResult :: "SeerCheck option"

section \<open>The reducer (App.tsx, gameReducer)\<close>

text \<open>
  \<^verbatim>\<open>Partial<Player>\<close>: every field of a player may be present or absent in an update.
\<close>

record PlayerUpdates =
  upd_id :: "string option"
  upd_name :: "jsString option"
  upd_role :: "Role option"
  upd_isBot :: "bool option"
  upd_isAlive :: "bool option"
  upd_isDying :: "bool option"
  upd_isProtected :: "bool option"
  upd_isPoisoned :: "bool option"
  upd_hasActed :: "bool option"
  upd_voteTargetId :: "string option option"
  upd_avatarUrl :: "string option"

definition noUpdates :: PlayerUpdates where
  "noUpdates = \<lparr> upd_id = None, upd_name = None, upd_role = None, upd_isBot = None,
     upd_isAlive = None, upd_isDying = None, upd_isProtected = None, upd_isPoisoned = None,
     upd_hasActed = None, upd_voteTargetId = None, upd_avatarUrl = None \<rparr>"

datatype Potion = Save | Poison

text \<open>
  The ten action types of the source. \<open>UNRECOGNIZED\<close> stands for an action object whose
  \<^verbatim>\<open>type\<close> is none of them: the TypeScript type excludes it, the \<^verbatim>\<open>default\<close> branch of
  the reducer receives it at run time.
\<close>

datatype Action =
    START_GAME "Player list" string
  | NEXT_PHASE GamePhase
  | ADD_LOG LogMessage
  | UPDATE_PLAYER string PlayerUpdates
  | SET_WITCH_POTION Potion bool
  | SET_LAST_KILLED "string option"
  | SET_SEER_RESULT "SeerCheck option"
  | SET_WINNER Faction
  | RESET_GAME
  | INCREMENT_DAY
  | UNRECOGNIZED string

definition initialState :: GameState where
  "initialState = \<lparr> phase = SETUP, players = [], humanPlayerId = None, dayCount = 0,
     logs = [], winner = None, witchPotions = \<lparr> save = True, poison = True \<rparr>,
     lastKilledId = None, seerCheckResult = None \<rparr>"

definition spread :: "'a \<Rightarrow> 'a option \<Rightarrow> 'a" where
  "spread old new = (case new of None \<Rightarrow> old | Some v \<Rightarrow> v)"

text \<open>\<^verbatim>\<open>{ ...p, ...action.updates }\<close>\<close>

definition applyUpdates :: "Player \<Rightarrow> PlayerUpdates \<Rightarrow> Player" where
  "applyUpdates p u = \<lparr>
     player_id = spread (player_id p) (upd_id u),
     name = spread (name p) (upd_name u),
     role = spread (role p) (upd_role u),
     isBot = spread (isBot p) (upd_isBot u),
     isAlive = spread (isAlive p) (upd_isAlive u),
     isDying = spread (isDying p) (upd_isDying u),
     isProtected = spread (isProtected p) (upd_isProtected u),
     isPoisoned = spread (isPoisoned p) (upd_isPoisoned u),
     hasActed = spread (hasActed p) (upd_hasActed u),
     voteTargetId = spread (voteTargetId p) (upd_voteTargetId u),
     avatarUrl = spread (avatarUrl p) (upd_avatarUrl u) \<rparr>"

fun gameReducer :: "GameState \<Rightarrow> Action \<Rightarrow> GameState" where
  "gameReducer state (START_GAME ps humanId) =
     initialState\<lparr> phase := NIGHT_START, players := ps, humanPlayerId := Some humanId,
       dayCount := 1 \<rparr>"
| "gameReducer state (NEXT_PHASE ph) = state\<lparr> phase := ph \<rparr>"
| "gameReducer state (ADD_LOG message) = state\<lparr> logs := logs state @ [message] \<rparr>"
| "gameReducer state (UPDATE_PLAYER playerId updates) =
     state\<lparr> players :=
       map (\<lambda>p. if player_id p = playerId then applyUpdates p updates else p) (players state) \<rparr>"
| "gameReducer state (SET_WITCH_POTION Save used) =
     state\<lparr> witchPotions := (witchPotions state)\<lparr> save := \<not> used \<rparr> \<rparr>"
| "gameReducer state (SET_WITCH_POTION Poison used) =
     state\<lparr> witchPotions := (witchPotions state)\<lparr> poison := \<not> used \<rparr> \<rparr>"
| "gameReducer state (SET_LAST_KILLED playerId) = state\<lparr> lastKilledId := playerId \<rparr>"
| "gameReducer state (SET_SEER_RESULT result) = state\<lparr> seerCheckResult := result \<rparr>"
| "gameReducer state (SET_WINNER w) = state\<lparr> winner := Some w \<rparr>"
| "gameReducer state INCREMENT_DAY = state\<lparr> dayCount := dayCount state + 1 \<rparr>"
| "gameReducer state RESET_GAME = initialState"
| "gameReducer state (UNRECOGNIZED t) = state"

text \<open>
  A handler calls \<^verbatim>\<open>dispatch\<close> several times in a row; React applies the reducer to the
  queued actions one after the other, each on the state the previous one returned.
\<close>

definition dispatchAll :: "GameState \<Rightarrow> Action list \<Rightarrow> GameState" where
  "dispatchAll state acts = foldl gameReducer state acts"

subsection \<open>The reducer at run time\<close>

text \<open>
  The type \<^verbatim>\<open>GameState\<close> is erased at run time: the reducer receives an object. Two of
  its branches can throw a TypeError on an object that is not a game state:
  \<^verbatim>\<open>state.players.map(p => p.id === ...)\<close> when \<^verbatim>\<open>players\<close> is undefined or holds an
  entry that is undefined or null, and \<^verbatim>\<open>[...state.logs, ...]\<close> when \<^verbatim>\<open>logs\<close> is undefined.
  The other branches read fields and build an object literal, which does not throw. A
  \<open>RuntimeState\<close> is a state in which these two fields and the entries of \<^verbatim>\<open>players\<close> may
  be undefined, and \<open>gameReducerRT\<close> is the reducer read with the throwing branches
  written out; \<open>runtime\<close> is a state of type \<^verbatim>\<open>GameState\<close> as the object it is at run time.
\<close>

datatype error = ConfigurationError | TypeError

record RuntimeState =
  rt_phase :: GamePhase
  rt_players :: "Player option list option"
  rt_humanPlayerId :: "string option"
  rt_dayCount :: nat
  rt_logs :: "LogMessage list option"
  rt_winner :: "Faction option"
  rt_witchPotions :: WitchPotions
  rt_lastKilledId :: "string option"
  rt_seerCheckResult :: "SeerCheck option"

definition runtime :: "GameState \<Rightarrow> RuntimeState" where
  "runtime state = \<lparr> rt_phase = phase state, rt_players = Some (map Some (players state)),
     rt_humanPlayerId = humanPlayerId state, rt_dayCount = dayCount state,
     rt_logs = Some (logs state), rt_winner = winner state,
     rt_witchPotions = witchPotions state, rt_lastKilledId = lastKilledId state,
     rt_seerCheckResult = seerCheckResult state \<rparr>"

fun gameReducerRT :: "RuntimeState \<Rightarrow> Action \<Rightarrow> error + RuntimeState" where
  "gameReducerRT state (START_GAME ps humanId) =
     Inr ((runtime initialState)\<lparr> rt_phase := NIGHT_START, rt_players := Some (map Some ps),
            rt_humanPlayerId := Some humanId, rt_dayCount := 1 \<rparr>)"
| "gameReducerRT state (NEXT_PHASE ph) = Inr (state\<lparr> rt_phase := ph \<rparr>)"
| "gameReducerRT state (ADD_LOG message) =
     (case rt_logs state of
        None \<Rightarrow> Inl TypeError
      | Some ls \<Rightarrow> Inr (state\<lparr> rt_logs := Some (ls @ [message]) \<rparr>))"
| "gameReducerRT state (UPDATE_PLAYER playerId updates) =
     (case rt_players state of
        None \<Rightarrow> Inl TypeError
      | Some ps \<Rightarrow>
          if None \<in> set ps then Inl TypeError
          else Inr (state\<lparr> rt_players :=
                      Some (map (map_option (\<lambda>p. if player_id p = playerId
                                                  then applyUpdates p updates else p)) ps) \<rparr>))"
| "gameReducerRT state (SET_WITCH_POTION Save used) =
     Inr (state\<lparr> rt_witchPotions := (rt_witchPotions state)\<lparr> save := \<not> used \<rparr> \<rparr>)"
| "gameReducerRT state (SET_WITCH_POTION Poison used) =
     Inr (state\<lparr> rt_witchPotions := (rt_witchPotions state)\<lparr> poison := \<not> used \<rparr> \<rparr>)"
| "gameReducerRT state (SET_LAST_KILLED playerId) = Inr (state\<lparr> rt_lastKilledId := playerId \<rparr>)"
| "gameReducerRT state (SET_SEER_RESULT result) = Inr (state\<lparr> rt_seerCheckResult := result \<rparr>)"
| "gameReducerRT state (SET_WINNER w) = Inr (state\<lparr> rt_winner := Some w \<rparr>)"
| "gameReducerRT state INCREMENT_DAY = Inr (state\<lparr> rt_dayCount := rt_dayCount state + 1 \<rparr>)"
| "gameReducerRT state RESET_GAME = Inr (runtime initialState)"
| "gameReducerRT state (UNRECOGNIZED t) = Inr state"

text \<open>
  \<^verbatim>\<open>useReducer\<close> gives the reducer the state that its last call returned: a list of
  actions is reduced one after the other, and the first TypeError ends it.
\<close>

fun runRT :: "RuntimeState \<Rightarrow> Action list \<Rightarrow> error + RuntimeState" where
  "runRT state [] = Inr state"
| "runRT state (a # as) =
     (case gameReducerRT state a of Inl e \<Rightarrow> Inl e | Inr state' \<Rightarrow> runRT state' as)"

section \<open>What the handlers read from outside the game state\<close>

text \<open>
  A handler reads three things that are not in the game state: the id of a log message
  (\<^verbatim>\<open>Date.now().toString() + Math.random()\<close>), the string that the narration service
  resolved to, and random numbers. They are the fields of \<open>Env\<close>; \<open>logId env k\<close> and
  \<open>draw env k\<close> are the values of the \<open>k\<close>-th call in one run of a handler.
  \<^verbatim>\<open>Math.floor(Math.random() * n)\<close> is some index below \<open>n\<close> when \<open>n\<close> is positive:
  the draw is reduced into that range.
\<close>

record Env =
  logId :: "nat \<Rightarrow> string"
  narration :: jsString
  draw :: "nat \<Rightarrow> nat"

definition pick :: "Env \<Rightarrow> nat \<Rightarrow> nat \<Rightarrow> nat" where
  "pick env k n = draw env k mod n"

definition addLog :: "Env \<Rightarrow> nat \<Rightarrow> LogText \<Rightarrow> Sender \<Rightarrow> LogType \<Rightarrow> Action" where
  "addLog env k txt sndr ty =
     ADD_LOG \<lparr> log_id = logId env k, sender = sndr, log_text = txt, log_type = ty \<rparr>"

text \<open>
  JavaScript truthiness of a \<^verbatim>\<open>string | null\<close>: null and the empty string are falsy.
\<close>

definition truthy :: "string option \<Rightarrow> bool" where
  "truthy v = (case v of None \<Rightarrow> False | Some t \<Rightarrow> t \<noteq> [])"

definition getHumanPlayer :: "GameState \<Rightarrow> Player option" where
  "getHumanPlayer state = find (\<lambda>p. Some (player_id p) = humanPlayerId state) (players state)"

section \<open>Bot handlers\<close>

definition handleBotWerewolfAction :: "Env \<Rightarrow> GameState \<Rightarrow> Action list" where
  "handleBotWerewolfAction env state =
     (let aliveGood = filter (\<lambda>p. isAlive p \<and> role p \<noteq> WEREWOLF) (players state) in
      if length aliveGood > 0 then
        (let target = aliveGood ! pick env 0 (length aliveGood) in
         [SET_LAST_KILLED (Some (player_id target)),
          UPDATE_PLAYER (player_id target) (noUpdates\<lparr> upd_isDying := Some True \<rparr>)])
      else [])"

definition handleBotSeerAction :: "Env \<Rightarrow> GameState \<Rightarrow> Action list" where
  "handleBotSeerAction env state = []"

definition handleBotWitchAction :: "Env \<Rightarrow> GameState \<Rightarrow> Action list" where
  "handleBotWitchAction env state = []"

definition handleBotVoting :: "Env \<Rightarrow> GameState \<Rightarrow> Action list" where
  "handleBotVoting env state =
     (let alive = filter isAlive (players state) in
      concat (map (\<lambda>(k, voter).
        if isBot voter then
          (let others = filter (\<lambda>p. player_id p \<noteq> player_id voter) alive in
           if length others > 0 then
             (let target = others ! pick env k (length others) in
              [UPDATE_PLAYER (player_id voter)
                 (noUpdates\<lparr> upd_voteTargetId := Some (Some (player_id target)) \<rparr>)])
           else [])
        else []) (enumerate 0 alive)))"

section \<open>The phase effect (runPhaseLogic)\<close>

text \<open>
  The effect dispatches some actions while it runs and others from a continuation: after
  an \<^verbatim>\<open>await\<close> of the narration service, or from a timer. Each part of the model returns
  the pair of the two lists, in the order of the dispatches. The timer of a night phase
  calls the bot handler of the render that started it, so the handler reads the state
  that the effect read.
\<close>

definition aliveWolves :: "GameState \<Rightarrow> nat" where
  "aliveWolves state = length (filter (\<lambda>p. isAlive p \<and> role p = WEREWOLF) (players state))"

definition aliveGood :: "GameState \<Rightarrow> nat" where
  "aliveGood state = length (filter (\<lambda>p. isAlive p \<and> role p \<noteq> WEREWOLF) (players state))"

definition resetFlags :: PlayerUpdates where
  "resetFlags = noUpdates\<lparr> upd_isDying := Some False, upd_isProtected := Some False,
     upd_isPoisoned := Some False, upd_voteTargetId := Some None \<rparr>"

definition killed :: PlayerUpdates where
  "killed = noUpdates\<lparr> upd_isAlive := Some False \<rparr>"

definition case_NIGHT_START :: "Env \<Rightarrow> GameState \<Rightarrow> Action list \<times> Action list" where
  "case_NIGHT_START env state =
     (map (\<lambda>p. UPDATE_PLAYER (player_id p) resetFlags) (players state)
        @ [SET_LAST_KILLED None],
      [addLog env 0 (Free_text (narration env)) HOST narrative, NEXT_PHASE NIGHT_WEREWOLF])"

text \<open>
  \<^verbatim>\<open>human?.role !== Role.X || !human.isAlive\<close>: true when there is no human player.
\<close>

definition humanActsAs :: "GameState \<Rightarrow> Role \<Rightarrow> bool" where
  "humanActsAs state r =
     (case getHumanPlayer state of None \<Rightarrow> False | Some human \<Rightarrow> role human = r \<and> isAlive human)"

definition case_NIGHT_WEREWOLF :: "Env \<Rightarrow> GameState \<Rightarrow> Action list \<times> Action list" where
  "case_NIGHT_WEREWOLF env state =
     ([addLog env 0 Werewolves_wake SYSTEM normal],
      if \<not> humanActsAs state WEREWOLF
      then handleBotWerewolfAction env state @ [NEXT_PHASE NIGHT_SEER] else [])"

definition case_NIGHT_SEER :: "Env \<Rightarrow> GameState \<Rightarrow> Action list \<times> Action list" where
  "case_NIGHT_SEER env state =
     ([addLog env 0 Seer_wakes SYSTEM normal],
      if \<not> humanActsAs state SEER
      then handleBotSeerAction env state @ [NEXT_PHASE NIGHT_WITCH] else [])"

definition case_NIGHT_WITCH :: "Env \<Rightarrow> GameState \<Rightarrow> Action list \<times> Action list" where
  "case_NIGHT_WITCH env state =
     ([addLog env 0 Witch_wakes SYSTEM normal],
      if \<not> humanActsAs state WITCH
      then handleBotWitchAction env state @ [NEXT_PHASE NIGHT_END] else [])"

definition case_NIGHT_END :: "Env \<Rightarrow> GameState \<Rightarrow> Action list \<times> Action list" where
  "case_NIGHT_END env state =
     (map (\<lambda>p. UPDATE_PLAYER (player_id p) killed)
        (filter (\<lambda>p. (isDying p \<and> \<not> isProtected p) \<or> isPoisoned p) (players state))
        @ [NEXT_PHASE DAY_ANNOUNCE],
      [])"

definition case_DAY_ANNOUNCE :: "Env \<Rightarrow> GameState \<Rightarrow> Action list \<times> Action list" where
  "case_DAY_ANNOUNCE env state =
     ([], [addLog env 0 (Free_text (narration env)) HOST narrative, NEXT_PHASE DAY_DISCUSS])"

definition case_DAY_DISCUSS :: "Env \<Rightarrow> GameState \<Rightarrow> Action list \<times> Action list" where
  "case_DAY_DISCUSS env state = ([addLog env 0 Discussion_opens SYSTEM normal], [])"

definition case_DAY_VOTE :: "Env \<Rightarrow> GameState \<Rightarrow> Action list \<times> Action list" where
  "case_DAY_VOTE env state =
     (case getHumanPlayer state of
        Some human \<Rightarrow>
          if \<not> isAlive human then
            ([addLog env 0 Everyone_votes SYSTEM alert] @ handleBotVoting env state
               @ [addLog env 1 You_are_dead_watching SYSTEM normal],
             [NEXT_PHASE DAY_EXECUTE])
          else ([addLog env 0 Everyone_votes SYSTEM alert] @ handleBotVoting env state, [])
      | None \<Rightarrow> ([addLog env 0 Everyone_votes SYSTEM alert] @ handleBotVoting env state, []))"

text \<open>
  The vote count \<^verbatim>\<open>votes: Record<string, number> = {}\<close> is a plain object. It is an
  association list here, with one entry for each key the object owns, in the order in
  which the keys were first written. (JavaScript lists the keys that are array indices
  first; \<open>scanOutcome_perm\<close> below shows that the order of the entries does not change the
  outcome of the scan.)

  A plain object inherits from \<^verbatim>\<open>Object.prototype\<close>. Reading \<^verbatim>\<open>votes[key]\<close> for a key
  that the object does not own, but the prototype has, gives a function (an object for
  \<^verbatim>\<open>__proto__\<close>), which is truthy: \<^verbatim>\<open>(votes[key] || 0) + 1\<close> is then a string, not a
  number, and so it stays at every later vote for that key. The assignment stores it as
  an own property, except under \<^verbatim>\<open>__proto__\<close>, whose setter ignores a string.
\<close>

definition objectPrototypeKeys :: "string list" where
  "objectPrototypeKeys =
     [''constructor'', ''hasOwnProperty'', ''isPrototypeOf'', ''propertyIsEnumerable'',
      ''toLocaleString'', ''toString'', ''valueOf'', ''__proto__'',
      ''__defineGetter__'', ''__defineSetter__'', ''__lookupGetter__'', ''__lookupSetter__'']"

datatype VoteCell = Count nat | NotANumber

fun addOne :: "VoteCell \<Rightarrow> VoteCell" where
  "addOne (Count n) = Count (n + 1)"
| "addOne NotANumber = NotANumber"

fun countVote :: "string \<Rightarrow> (string \<times> VoteCell) list \<Rightarrow> (string \<times> VoteCell) list" where
  "countVote t [] =
     (if t = ''__proto__'' then []
      else if t \<in> set objectPrototypeKeys then [(t, NotANumber)]
      else [(t, Count 1)])"
| "countVote t ((k, c) # rest) =
     (if k = t then (k, addOne c) # rest else (k, c) # countVote t rest)"

definition tallyVotes :: "Player list \<Rightarrow> (string \<times> VoteCell) list" where
  "tallyVotes ps =
     foldl (\<lambda>votes p. if truthy (voteTargetId p)
                        then (case voteTargetId p of Some t \<Rightarrow> countVote t votes | None \<Rightarrow> votes)
                        else votes)
       [] (filter isAlive ps)"

text \<open>
  The loop over \<^verbatim>\<open>Object.entries(votes)\<close>: the state is (maxVotes, victimId, tie). For a
  value that is not a number both comparisons, \<^verbatim>\<open>count > maxVotes\<close> and
  \<^verbatim>\<open>count === maxVotes\<close>, are false.
\<close>

fun scanStep :: "nat \<times> string option \<times> bool \<Rightarrow> string \<times> VoteCell \<Rightarrow> nat \<times> string option \<times> bool" where
  "scanStep (maxVotes, victimId, tie) (ident, Count cnt) =
     (if cnt > maxVotes then (cnt, Some ident, False)
      else if cnt = maxVotes then (maxVotes, victimId, True)
      else (maxVotes, victimId, tie))"
| "scanStep (maxVotes, victimId, tie) (ident, NotANumber) = (maxVotes, victimId, tie)"

definition scanVotes :: "(string \<times> VoteCell) list \<Rightarrow> nat \<times> string option \<times> bool" where
  "scanVotes votes = foldl scanStep (0, None, False) votes"

definition case_DAY_EXECUTE :: "Env \<Rightarrow> GameState \<Rightarrow> Action list \<times> Action list" where
  "case_DAY_EXECUTE env state =
     (case scanVotes (tallyVotes (players state)) of (maxVotes, victimId, tie) \<Rightarrow>
        ((if truthy victimId \<and> \<not> tie then
            (case find (\<lambda>p. Some (player_id p) = victimId) (players state) of
               Some victim \<Rightarrow>
                 [addLog env 0 (Was_executed (name victim)) SYSTEM alert,
                  UPDATE_PLAYER (player_id victim) killed]
             | None \<Rightarrow> [])
          else [addLog env 0 Vote_tied SYSTEM normal]),
         [INCREMENT_DAY, NEXT_PHASE NIGHT_START]))"

definition phaseTransitions :: "Env \<Rightarrow> GameState \<Rightarrow> Action list \<times> Action list" where
  "phaseTransitions env state =
     (case phase state of
        NIGHT_START \<Rightarrow> case_NIGHT_START env state
      | NIGHT_WEREWOLF \<Rightarrow> case_NIGHT_WEREWOLF env state
      | NIGHT_SEER \<Rightarrow> case_NIGHT_SEER env state
      | NIGHT_WITCH \<Rightarrow> case_NIGHT_WITCH env state
      | NIGHT_END \<Rightarrow> case_NIGHT_END env state
      | DAY_ANNOUNCE \<Rightarrow> case_DAY_ANNOUNCE env state
      | DAY_DISCUSS \<Rightarrow> case_DAY_DISCUSS env state
      | DAY_VOTE \<Rightarrow> case_DAY_VOTE env state
      | DAY_EXECUTE \<Rightarrow> case_DAY_EXECUTE env state
      | SETUP \<Rightarrow> ([], [])
      | GAME_OVER \<Rightarrow> ([], []))"

definition runPhaseLogic :: "Env \<Rightarrow> GameState \<Rightarrow> Action list \<times> Action list" where
  "runPhaseLogic env state =
     (if phase state \<noteq> SETUP \<and> phase state \<noteq> GAME_OVER \<and> aliveWolves state = 0 then
        ([SET_WINNER VILLAGER_WINS, NEXT_PHASE GAME_OVER,
          addLog env 0 Wolves_wiped_out SYSTEM alert],
         [addLog env 1 (Free_text (narration env)) HOST narrative])
      else if phase state \<noteq> SETUP \<and> phase state \<noteq> GAME_OVER
              \<and> aliveWolves state \<ge> aliveGood state then
        ([SET_WINNER WEREWOLF_WINS, NEXT_PHASE GAME_OVER,
          addLog env 0 Wolves_outnumber SYSTEM alert],
         [addLog env 1 (Free_text (narration env)) HOST narrative])
      else phaseTransitions env state)"

text \<open>The state after the whole effect, when nothing else is dispatched in between.\<close>

definition afterPhaseLogic :: "Env \<Rightarrow> GameState \<Rightarrow> GameState" where
  "afterPhaseLogic env state =
     dispatchAll state (fst (runPhaseLogic env state) @ snd (runPhaseLogic env state))"

section \<open>Human handlers\<close>

text \<open>
  \<^verbatim>\<open>selectedTargetId\<close> is state of the component, not of the game: the handlers take it
  as an argument. A click on a player card sets it under the condition \<open>canSelect\<close>.
\<close>

definition isHumanTurn :: "GameState \<Rightarrow> bool" where
  "isHumanTurn state =
     ((phase state = NIGHT_WEREWOLF \<and> humanActsAs state WEREWOLF) \<or>
      (phase state = NIGHT_SEER \<and> humanActsAs state SEER) \<or>
      (phase state = NIGHT_WITCH \<and> humanActsAs state WITCH) \<or>
      (phase state = DAY_VOTE \<and>
         (case getHumanPlayer state of None \<Rightarrow> False | Some human \<Rightarrow> isAlive human)))"

definition canSelect :: "GameState \<Rightarrow> Player \<Rightarrow> bool" where
  "canSelect state player =
     (isHumanTurn state \<and> isAlive player \<and>
      (case getHumanPlayer state of None \<Rightarrow> True | Some human \<Rightarrow> player_id player \<noteq> player_id human))"

definition nameOf :: "GameState \<Rightarrow> string \<Rightarrow> jsString option" where
  "nameOf state t = map_option name (find (\<lambda>p. player_id p = t) (players state))"

definition handleHumanAction :: "Env \<Rightarrow> GameState \<Rightarrow> string option \<Rightarrow> Action list \<times> Action list" where
  "handleHumanAction env state selectedTargetId =
     (case getHumanPlayer state of
        None \<Rightarrow> ([], [])
      | Some human \<Rightarrow>
          if \<not> isAlive human then ([], [])
          else if \<not> truthy selectedTargetId \<and> phase state \<noteq> DAY_DISCUSS then ([], [])
          else if phase state = NIGHT_WEREWOLF \<and> role human = WEREWOLF then
            (case selectedTargetId of
               Some t \<Rightarrow>
                 if t \<noteq> [] then
                   ([SET_LAST_KILLED (Some t),
                     UPDATE_PLAYER t (noUpdates\<lparr> upd_isDying := Some True \<rparr>),
                     addLog env 0 (You_attacked (nameOf state t)) SYSTEM normal,
                     NEXT_PHASE NIGHT_SEER], [])
                 else ([], [])
             | None \<Rightarrow> ([], []))
          else if phase state = NIGHT_SEER \<and> role human = SEER then
            (case selectedTargetId of
               Some t \<Rightarrow>
                 if t \<noteq> [] then
                   ((case find (\<lambda>p. player_id p = t) (players state) of
                       Some target \<Rightarrow>
                         [SET_SEER_RESULT (Some \<lparr> checked_name = name target,
                                                  isWerewolf = (role target = WEREWOLF) \<rparr>),
                          addLog env 0 (Seer_verdict (name target) (role target = WEREWOLF))
                            CHECK_RESULT normal]
                     | None \<Rightarrow> []),
                    [NEXT_PHASE NIGHT_WITCH])
                 else ([], [])
             | None \<Rightarrow> ([], []))
          else if phase state = DAY_VOTE then
            (case selectedTargetId of
               Some t \<Rightarrow>
                 if t \<noteq> [] then
                   ([UPDATE_PLAYER (player_id human)
                       (noUpdates\<lparr> upd_voteTargetId := Some (Some t) \<rparr>),
                     addLog env 0 (You_voted_for (nameOf state t)) SYSTEM normal,
                     NEXT_PHASE DAY_EXECUTE], [])
                 else ([], [])
             | None \<Rightarrow> ([], []))
          else ([], []))"

definition handleWitchSave :: "Env \<Rightarrow> GameState \<Rightarrow> Action list" where
  "handleWitchSave env state =
     (case lastKilledId state of
        Some k \<Rightarrow>
          if k \<noteq> [] \<and> save (witchPotions state) then
            [UPDATE_PLAYER k (noUpdates\<lparr> upd_isDying := Some False, upd_isProtected := Some True \<rparr>),
             SET_WITCH_POTION Save True,
             addLog env 0 Antidote_used SYSTEM normal]
          else []
      | None \<Rightarrow> [])"

definition handleWitchPoison :: "Env \<Rightarrow> GameState \<Rightarrow> string option \<Rightarrow> Action list" where
  "handleWitchPoison env state selectedTargetId =
     (case selectedTargetId of
        Some t \<Rightarrow>
          if t \<noteq> [] \<and> poison (witchPotions state) then
            [UPDATE_PLAYER t (noUpdates\<lparr> upd_isPoisoned := Some True \<rparr>),
             SET_WITCH_POTION Poison True,
             addLog env 0 Poison_used SYSTEM normal,
             NEXT_PHASE NIGHT_END]
          else []
      | None \<Rightarrow> [])"

definition skipPhase :: "GameState \<Rightarrow> Action list" where
  "skipPhase state =
     (if phase state = NIGHT_WITCH then [NEXT_PHASE NIGHT_END] else [])
     @ (if phase state = DAY_DISCUSS then [NEXT_PHASE DAY_VOTE] else [])"

section \<open>Starting a game (handleStartGame)\<close>

text \<open>
  The entries of the role table are not in the specification: the numbers of werewolves
  and of hunters for each player count are a parameter of the planner.
\<close>

record RoleTable =
  wolfCount :: "nat \<Rightarrow> nat"
  hunterCount :: "nat \<Rightarrow> nat"

text \<open>
  Modelled from the spec: \<^verbatim>\<open>getRoleDistribution\<close> of constants.ts, which is not among the
  sources (only its call in \<^verbatim>\<open>handleStartGame\<close> is). The specification gives the contract:
  a sequence of \<open>playerCount\<close> roles; counts from a fixed table keyed on the player count,
  with more werewolves and more special roles for more players and villagers filling the
  remainder; exactly one SEER and one WITCH in every game; a ConfigurationError outside
  the range from 6 to 18.
\<close>

definition getRoleDistribution :: "RoleTable \<Rightarrow> nat \<Rightarrow> error + Role list" where
  "getRoleDistribution tbl playerCount =
     (if playerCount < 6 \<or> 18 < playerCount then Inl ConfigurationError
      else Inr (replicate (wolfCount tbl playerCount) WEREWOLF
                @ [SEER, WITCH]
                @ replicate (hunterCount tbl playerCount) HUNTER
                @ replicate (playerCount - (wolfCount tbl playerCount + 2 + hunterCount tbl playerCount))
                    VILLAGER))"

text \<open>
  The shuffle of \<^verbatim>\<open>handleStartGame\<close>: for \<open>i\<close> from the last index down to 1, swap the
  entries at \<open>i\<close> and at a random \<open>j \<le> i\<close>. The draw of round \<open>i\<close> is \<open>draw env i\<close>.
\<close>

fun shuffleFrom :: "Env \<Rightarrow> nat \<Rightarrow> 'a list \<Rightarrow> 'a list" where
  "shuffleFrom env 0 roles = roles"
| "shuffleFrom env (Suc i) roles =
     (let j = pick env (Suc i) (Suc i + 1) in
      shuffleFrom env i (roles[Suc i := roles ! j, j := roles ! Suc i]))"

definition shuffle :: "Env \<Rightarrow> 'a list \<Rightarrow> 'a list" where
  "shuffle env roles = shuffleFrom env (length roles - 1) roles"

text \<open>Decimal digits of an index, for the template literals \<^verbatim>\<open>p-${idx}\<close> and \<^verbatim>\<open>Bot ${idx}\<close>.\<close>

fun string_of_nat :: "nat \<Rightarrow> string" where
  "string_of_nat n =
     (if n < 10 then [''0123456789'' ! n]
      else string_of_nat (n div 10) @ [''0123456789'' ! (n mod 10)])"

declare string_of_nat.simps [simp del]

text \<open>
  \<^verbatim>\<open>setupName.trim() === ''\<close>: every code unit of the name is white space or a line
  terminator of JavaScript. These are TAB, LF, VT, FF, CR, SPACE, NO-BREAK SPACE, the
  other space separators of Unicode (U+1680, U+2000 to U+200A, U+202F, U+205F, U+3000),
  the line and paragraph separators U+2028 and U+2029, and U+FEFF.
\<close>

definition jsWhiteSpace :: "nat list" where
  "jsWhiteSpace = [0x09, 0x0A, 0x0B, 0x0C, 0x0D, 0x20, 0xA0, 0x1680,
     0x2000, 0x2001, 0x2002, 0x2003, 0x2004, 0x2005, 0x2006, 0x2007, 0x2008, 0x2009, 0x200A,
     0x2028, 0x2029, 0x202F, 0x205F, 0x3000, 0xFEFF]"

definition isBlank :: "jsString \<Rightarrow> bool" where
  "isBlank str = list_all (\<lambda>c. c \<in> set jsWhiteSpace) str"

text \<open>
  The bot names (\<^verbatim>\<open>BOT_NAMES\<close> of constants.ts, shuffled) and the avatar URLs are
  arguments. The indices \<open>idx\<close> are below the number of roles, and \<^verbatim>\<open>newPlayers[0]\<close>
  exists, since \<open>getRoleDistribution\<close> returns at least \<open>setupCount\<close> roles and fails below
  six players.
\<close>

definition newPlayers :: "jsString \<Rightarrow> nat \<Rightarrow> string \<Rightarrow> jsString list \<Rightarrow> (nat \<Rightarrow> string) \<Rightarrow> Role list \<Rightarrow> Player list" where
  "newPlayers setupName setupCount selectedAvatar shuffledNames botAvatar roles =
     map (\<lambda>idx.
       \<lparr> player_id = ''p-'' @ string_of_nat idx,
         name = (if idx = 0 then setupName
                 else if idx - 1 < length shuffledNames \<and> shuffledNames ! (idx - 1) \<noteq> []
                      then shuffledNames ! (idx - 1)
                      else map of_char (''Bot '' @ string_of_nat idx)),
         role = roles ! idx,
         isBot = (idx \<noteq> 0),
         isAlive = True,
         isDying = False,
         isProtected = False,
         isPoisoned = False,
         hasActed = False,
         voteTargetId = None,
         avatarUrl = (if idx = 0 then selectedAvatar else botAvatar idx) \<rparr>) [0..<setupCount]"

definition handleStartGame ::
  "RoleTable \<Rightarrow> Env \<Rightarrow> jsString \<Rightarrow> nat \<Rightarrow> string \<Rightarrow> jsString list \<Rightarrow> (nat \<Rightarrow> string) \<Rightarrow> error + Action list" where
  "handleStartGame tbl env setupName setupCount selectedAvatar shuffledNames botAvatar =
     (if isBlank setupName then Inr []
      else case getRoleDistribution tbl setupCount of
             Inl e \<Rightarrow> Inl e
           | Inr roles \<Rightarrow>
               (let ps = newPlayers setupName setupCount selectedAvatar shuffledNames botAvatar
                           (shuffle env roles)
                in Inr [START_GAME ps (player_id (ps ! 0))]))"

section \<open>Runs of one game\<close>

text \<open>
  What happens between the start of a game and the next reset: the phase effect runs, a
  continuation of an earlier effect or handler fires (it dispatches what it computed from
  the state \<open>snap\<close> that its handler read), the human confirms an action, uses a potion,
  skips, or a chat line is appended (\<^verbatim>\<open>handleSendChat\<close> and the discussion timer call
  \<^verbatim>\<open>addLog\<close> only). Starting a game needs the setup screen and a reset ends the game, so
  neither is an event of a run.
\<close>

datatype Event =
    PhaseEffect Env
  | PhaseContinuation Env GameState
  | HumanAction Env "string option"
  | HumanContinuation Env GameState "string option"
  | WitchSave Env
  | WitchPoison Env "string option"
  | SkipPhase
  | Chat LogMessage

fun fire :: "Event \<Rightarrow> GameState \<Rightarrow> Action list" where
  "fire (PhaseEffect env) state = fst (runPhaseLogic env state)"
| "fire (PhaseContinuation env snap) state = snd (runPhaseLogic env snap)"
| "fire (HumanAction env sel) state = fst (handleHumanAction env state sel)"
| "fire (HumanContinuation env snap sel) state = snd (handleHumanAction env snap sel)"
| "fire (WitchSave env) state = handleWitchSave env state"
| "fire (WitchPoison env sel) state = handleWitchPoison env state sel"
| "fire SkipPhase state = skipPhase state"
| "fire (Chat message) state = [ADD_LOG message]"

text \<open>All actions dispatched during a run, in order, and the states they lead through.\<close>

fun dispatched :: "GameState \<Rightarrow> Event list \<Rightarrow> Action list" where
  "dispatched state [] = []"
| "dispatched state (e # es) = fire e state @ dispatched (dispatchAll state (fire e state)) es"

fun history :: "GameState \<Rightarrow> Action list \<Rightarrow> GameState list" where
  "history state [] = [state]"
| "history state (a # as) = state # history (gameReducer state a) as"

text \<open>The numbers of steps of a history at which a flag goes from true to false, and back.\<close>

definition falls :: "('s \<Rightarrow> bool) \<Rightarrow> 's list \<Rightarrow> nat" where
  "falls f h = length (filter (\<lambda>(a, b). f a \<and> \<not> f b) (zip h (tl h)))"

definition rises :: "('s \<Rightarrow> bool) \<Rightarrow> 's list \<Rightarrow> nat" where
  "rises f h = length (filter (\<lambda>(a, b). \<not> f a \<and> f b) (zip h (tl h)))"

section \<open>Tables for concrete runs\<close>

definition seat :: "string \<Rightarrow> Role \<Rightarrow> bool \<Rightarrow> Player" where
  "seat i r b = \<lparr> player_id = i, name = map of_char i, role = r, isBot = b, isAlive = True,
     isDying = False, isProtected = False, isPoisoned = False, hasActed = False,
     voteTargetId = None, avatarUrl = [] \<rparr>"

definition table5 :: "Player list" where
  "table5 = [seat ''p-0'' WEREWOLF False, seat ''p-1'' WEREWOLF True, seat ''p-2'' SEER True,
             seat ''p-3'' WITCH True, seat ''p-4'' VILLAGER True]"

definition game5 :: "GamePhase \<Rightarrow> Player list \<Rightarrow> GameState" where
  "game5 ph ps = \<lparr> phase = ph, players = ps, humanPlayerId = Some ''p-0'', dayCount = 1,
     logs = [], winner = None, witchPotions = \<lparr> save = True, poison = True \<rparr>,
     lastKilledId = None, seerCheckResult = None \<rparr>"

definition env0 :: Env where
  "env0 = \<lparr> logId = string_of_nat, narration = map of_char ''night falls'', draw = (\<lambda>k. 7 * k + 2) \<rparr>"

section \<open>Vocabulary of the statements\<close>

text \<open>
  The number of votes for a candidate, in the words of the specification: the alive
  players whose \<open>voteTargetId\<close> is that candidate. A candidate is the sole leader of the
  vote when it has a vote and every other candidate has strictly fewer.
\<close>

definition votesFor :: "Player list \<Rightarrow> string \<Rightarrow> nat" where
  "votesFor ps c = length (filter (\<lambda>p. isAlive p \<and> voteTargetId p = Some c) ps)"

definition soleLeader :: "Player list \<Rightarrow> string \<Rightarrow> bool" where
  "soleLeader ps c = (votesFor ps c > 0 \<and> (\<forall>d. d \<noteq> c \<longrightarrow> votesFor ps d < votesFor ps c))"

text \<open>The outcome of the scan: the victim, unless the scan ended in a tie.\<close>

definition scanOutcome :: "(string \<times> VoteCell) list \<Rightarrow> string option" where
  "scanOutcome votes = (case scanVotes votes of (maxVotes, victimId, tie) \<Rightarrow>
                          if tie then None else victimId)"

text \<open>One round of the loop that counts the votes.\<close>

definition tallyStep :: "(string \<times> VoteCell) list \<Rightarrow> Player \<Rightarrow> (string \<times> VoteCell) list" where
  "tallyStep votes p = (if truthy (voteTargetId p)
                        then (case voteTargetId p of Some t \<Rightarrow> countVote t votes | None \<Rightarrow> votes)
                        else votes)"

text \<open>
  The actions that can set a potion flag to true: a new game, a reset, and
  \<^verbatim>\<open>SET_WITCH_POTION\<close> with \<^verbatim>\<open>used: false\<close>.
\<close>

fun refills :: "Action \<Rightarrow> bool" where
  "refills (START_GAME ps humanId) = True"
| "refills RESET_GAME = True"
| "refills (SET_WITCH_POTION p used) = (\<not> used)"
| "refills a = False"

text \<open>
  The actions that can change the ids of the players: a new game, a reset, and
  \<^verbatim>\<open>UPDATE_PLAYER\<close> with an \<^verbatim>\<open>id\<close> among its updates.
\<close>

fun renames :: "Action \<Rightarrow> bool" where
  "renames (START_GAME ps humanId) = True"
| "renames RESET_GAME = True"
| "renames (UPDATE_PLAYER playerId updates) = (upd_id updates \<noteq> None)"
| "renames a = False"

definition night_end5 :: GameState where
  "night_end5 = game5 NIGHT_END
     [seat ''p-0'' WEREWOLF False, seat ''p-1'' WEREWOLF True,
      (seat ''p-2'' SEER True)\<lparr> isDying := True, isProtected := True, isPoisoned := True \<rparr>,
      (seat ''p-3'' WITCH True)\<lparr> isDying := True, isProtected := True \<rparr>,
      (seat ''p-4'' VILLAGER True)\<lparr> isDying := True \<rparr>]"

definition wolves_dead5 :: GameState where
  "wolves_dead5 = game5 NIGHT_SEER
     [(seat ''p-0'' WEREWOLF False)\<lparr> isAlive := False \<rparr>,
      (seat ''p-1'' WEREWOLF True)\<lparr> isAlive := False \<rparr>,
      seat ''p-2'' SEER True, seat ''p-3'' WITCH True, seat ''p-4'' VILLAGER True]"

definition parity4 :: GameState where
  "parity4 = game5 DAY_VOTE
     [seat ''p-0'' WEREWOLF False, seat ''p-1'' WEREWOLF True,
      seat ''p-2'' SEER True, seat ''p-3'' WITCH True]"

definition vote5 :: GameState where
  "vote5 = game5 DAY_EXECUTE
     [(seat ''p-0'' WEREWOLF False)\<lparr> voteTargetId := Some ''p-4'' \<rparr>,
      (seat ''p-1'' WEREWOLF True)\<lparr> voteTargetId := Some ''p-4'' \<rparr>,
      (seat ''p-2'' SEER True)\<lparr> voteTargetId := Some ''p-4'' \<rparr>,
      (seat ''p-3'' WITCH True)\<lparr> voteTargetId := Some ''p-1'' \<rparr>,
      seat ''p-4'' VILLAGER True]"

definition tie5 :: GameState where
  "tie5 = game5 DAY_EXECUTE
     [(seat ''p-0'' WEREWOLF False)\<lparr> voteTargetId := Some ''p-1'' \<rparr>,
      (seat ''p-1'' WEREWOLF True)\<lparr> voteTargetId := Some ''p-2'' \<rparr>,
      (seat ''p-2'' SEER True)\<lparr> voteTargetId := Some ''p-1'' \<rparr>,
      (seat ''p-3'' WITCH True)\<lparr> voteTargetId := Some ''p-2'' \<rparr>,
      (seat ''p-4'' VILLAGER True)\<lparr> voteTargetId := Some ''p-3'' \<rparr>]"

definition dusk5 :: GameState where
  "dusk5 = (game5 NIGHT_START
     [(seat ''p-0'' WEREWOLF False)\<lparr> voteTargetId := Some ''p-4'' \<rparr>,
      (seat ''p-1'' WEREWOLF True)\<lparr> isPoisoned := True \<rparr>,
      (seat ''p-2'' SEER True)\<lparr> isDying := True \<rparr>,
      (seat ''p-3'' WITCH True)\<lparr> isProtected := True \<rparr>,
      seat ''p-4'' VILLAGER True])\<lparr> lastKilledId := Some ''p-2'' \<rparr>"

definition witch5 :: GameState where
  "witch5 = (game5 NIGHT_WITCH
     [seat ''p-0'' WEREWOLF True, seat ''p-1'' WEREWOLF True, seat ''p-2'' SEER True,
      seat ''p-3'' WITCH False,
      (seat ''p-4'' VILLAGER True)\<lparr> isDying := True \<rparr>])\<lparr> humanPlayerId := Some ''p-3'',
        lastKilledId := Some ''p-4'' \<rparr>"

definition hunt5 :: GameState where
  "hunt5 = game5 NIGHT_WEREWOLF table5"

definition table8 :: "Player list" where
  "table8 = [seat ''p-0'' WEREWOLF False, seat ''p-1'' WEREWOLF True, seat ''p-2'' SEER True,
             seat ''p-3'' WITCH True, seat ''p-4'' HUNTER True, seat ''p-5'' VILLAGER True,
             seat ''p-6'' VILLAGER True, seat ''p-7'' VILLAGER True]"

definition hunt8 :: GameState where
  "hunt8 = game5 NIGHT_WEREWOLF table8"

definition marked8 :: GameState where
  "marked8 = (game5 NIGHT_WEREWOLF
     [seat ''p-0'' WEREWOLF False, seat ''p-1'' WEREWOLF True, seat ''p-2'' SEER True,
      seat ''p-3'' WITCH True, seat ''p-4'' HUNTER True,
      (seat ''p-5'' VILLAGER True)\<lparr> isDying := True \<rparr>,
      seat ''p-6'' VILLAGER True, seat ''p-7'' VILLAGER True])\<lparr> lastKilledId := Some ''p-5'' \<rparr>"

definition ballot8 :: GameState where
  "ballot8 = game5 DAY_EXECUTE
     [(seat ''p-0'' WEREWOLF False)\<lparr> voteTargetId := Some ''constructor'' \<rparr>,
      (seat ''p-1'' WEREWOLF True)\<lparr> voteTargetId := Some ''constructor'' \<rparr>,
      (seat ''p-2'' SEER True)\<lparr> voteTargetId := Some ''constructor'' \<rparr>,
      (seat ''p-3'' WITCH True)\<lparr> voteTargetId := Some ''__proto__'' \<rparr>,
      (seat ''p-4'' HUNTER True)\<lparr> voteTargetId := Some ''p-0'' \<rparr>,
      seat ''p-5'' VILLAGER True, seat ''p-6'' VILLAGER True, seat ''p-7'' VILLAGER True]"

definition late5 :: GameState where
  "late5 = game5 DAY_VOTE
     [seat ''p-0'' WEREWOLF False, seat ''p-1'' WEREWOLF True, seat ''p-2'' SEER True,
      seat ''p-3'' WITCH True, (seat ''p-4'' VILLAGER True)\<lparr> isAlive := False \<rparr>]"

section \<open>Dispatching lists of actions\<close>

lemma dispatchAll_Nil [simp]: "dispatchAll s [] = s"
  by (simp add: dispatchAll_def)

lemma dispatchAll_Cons [simp]: "dispatchAll s (a # as) = dispatchAll (gameReducer s a) as"
  by (simp add: dispatchAll_def)

lemma dispatchAll_append: "dispatchAll s (as @ bs) = dispatchAll (dispatchAll s as) bs"
  by (simp add: dispatchAll_def)

lemma spread_idem: "spread (spread a u) u = spread a u"
  by (cases u) (simp_all add: spread_def)

lemma applyUpdates_idem: "applyUpdates (applyUpdates p u) u = applyUpdates p u"
  by (simp add: applyUpdates_def spread_idem)

lemma applyUpdates_id: "upd_id u = None \<Longrightarrow> player_id (applyUpdates p u) = player_id p"
  by (simp add: applyUpdates_def spread_def)

lemma dispatch_updates:
  assumes "upd_id u = None"
  shows "dispatchAll s (map (\<lambda>q. UPDATE_PLAYER (player_id q) u) qs) =
         s\<lparr> players := map (\<lambda>p. if player_id p \<in> player_id ` set qs then applyUpdates p u else p)
                         (players s) \<rparr>"
proof (induction qs arbitrary: s)
  case Nil
  then show ?case by simp
next
  case (Cons q qs)
  have "map (\<lambda>p. if player_id p \<in> player_id ` set qs then applyUpdates p u else p)
          (map (\<lambda>p. if player_id p = player_id q then applyUpdates p u else p) (players s))
        = map (\<lambda>p. if player_id p \<in> player_id ` set (q # qs) then applyUpdates p u else p)
          (players s)"
    using assms by (auto simp: applyUpdates_idem applyUpdates_id)
  then show ?case
    by (simp add: Cons.IH)
qed

lemma killed_alive: "applyUpdates p killed = p\<lparr> isAlive := False \<rparr>"
  by (simp add: applyUpdates_def killed_def noUpdates_def spread_def)

lemma killed_id: "upd_id killed = None"
  by (simp add: killed_def noUpdates_def)

lemma resetFlags_id: "upd_id resetFlags = None"
  by (simp add: resetFlags_def noUpdates_def)

lemma resetFlags_apply: "applyUpdates p resetFlags =
   p\<lparr> isDying := False, isProtected := False, isPoisoned := False, voteTargetId := None \<rparr>"
  by (simp add: applyUpdates_def resetFlags_def noUpdates_def spread_def)

lemma upd_dying: "applyUpdates p (noUpdates\<lparr> upd_isDying := Some True \<rparr>) = p\<lparr> isDying := True \<rparr>"
  by (simp add: applyUpdates_def noUpdates_def spread_def)

lemma upd_saved:
  "applyUpdates p (noUpdates\<lparr> upd_isDying := Some False, upd_isProtected := Some True \<rparr>)
   = p\<lparr> isDying := False, isProtected := True \<rparr>"
  by (simp add: applyUpdates_def noUpdates_def spread_def)

lemma upd_poisoned:
  "applyUpdates p (noUpdates\<lparr> upd_isPoisoned := Some True \<rparr>) = p\<lparr> isPoisoned := True \<rparr>"
  by (simp add: applyUpdates_def noUpdates_def spread_def)

lemma save_differs: "save (witchPotions s') \<noteq> save (witchPotions s) \<Longrightarrow> s' \<noteq> s"
  by auto

lemma no_win_phase:
  "aliveWolves s \<noteq> 0 \<Longrightarrow> aliveWolves s < aliveGood s \<Longrightarrow> runPhaseLogic env s = phaseTransitions env s"
  by (simp add: runPhaseLogic_def)

lemma afterPhaseLogic_no_win:
  "aliveWolves s \<noteq> 0 \<Longrightarrow> aliveWolves s < aliveGood s \<Longrightarrow>
   afterPhaseLogic env s = dispatchAll s (fst (phaseTransitions env s) @ snd (phaseTransitions env s))"
  by (simp add: afterPhaseLogic_def no_win_phase)

section \<open>Night resolution\<close>

lemma night_end_players:
  assumes "distinct (map player_id (players s))"
  shows "dispatchAll s (fst (case_NIGHT_END env s) @ snd (case_NIGHT_END env s)) =
        s\<lparr> players := map (\<lambda>p. if (isDying p \<and> \<not> isProtected p) \<or> isPoisoned p
                                then p\<lparr> isAlive := False \<rparr> else p) (players s),
           phase := DAY_ANNOUNCE \<rparr>"
proof -
  let ?P = "\<lambda>p. (isDying p \<and> \<not> isProtected p) \<or> isPoisoned p"
  have inj: "inj_on player_id (set (players s))"
    using assms by (simp add: distinct_map)
  have "map (\<lambda>p. if player_id p \<in> player_id ` set (filter ?P (players s))
                  then applyUpdates p killed else p) (players s)
        = map (\<lambda>p. if ?P p then p\<lparr> isAlive := False \<rparr> else p) (players s)"
  proof (rule map_cong[OF refl])
    fix p assume p: "p \<in> set (players s)"
    have "player_id p \<in> player_id ` set (filter ?P (players s)) \<longleftrightarrow> ?P p"
    proof
      assume "player_id p \<in> player_id ` set (filter ?P (players s))"
      then obtain q where q: "q \<in> set (players s)" "?P q" "player_id q = player_id p"
        by auto
      with inj p have "q = p" by (auto dest: inj_onD)
      with q show "?P p" by simp
    next
      assume "?P p" with p show "player_id p \<in> player_id ` set (filter ?P (players s))"
        by auto
    qed
    then show "(if player_id p \<in> player_id ` set (filter ?P (players s))
                then applyUpdates p killed else p)
               = (if ?P p then p\<lparr> isAlive := False \<rparr> else p)"
      by (simp add: killed_alive)
  qed
  then show ?thesis
    by (simp add: case_NIGHT_END_def dispatchAll_append dispatch_updates [OF killed_id])
qed

text \<open>
  Claim C1. When the phase effect runs in NIGHT_END and passes the win check, a player
  is set not-alive exactly when it is dying and not protected, or poisoned; every other
  field and every other player stay as they are, and the phase becomes DAY_ANNOUNCE. So a
  player that is dying, protected and poisoned dies, and a player that is dying and
  protected but not poisoned keeps its \<open>isAlive\<close>. Player ids are distinct, as
  \<open>handleStartGame\<close> creates them.
\<close>

theorem night_end_resolution:
  assumes "phase s = NIGHT_END" and "aliveWolves s \<noteq> 0" and "aliveWolves s < aliveGood s"
    and "distinct (map player_id (players s))"
  shows "afterPhaseLogic env s =
           s\<lparr> players := map (\<lambda>p. if (isDying p \<and> \<not> isProtected p) \<or> isPoisoned p
                                   then p\<lparr> isAlive := False \<rparr> else p) (players s),
              phase := DAY_ANNOUNCE \<rparr>
         \<and> (\<forall>i < length (players s).
               isAlive (players (afterPhaseLogic env s) ! i) =
                 (isAlive (players s ! i)
                  \<and> \<not> ((isDying (players s ! i) \<and> \<not> isProtected (players s ! i))
                        \<or> isPoisoned (players s ! i))))"
proof -
  have e: "afterPhaseLogic env s =
           s\<lparr> players := map (\<lambda>p. if (isDying p \<and> \<not> isProtected p) \<or> isPoisoned p
                                   then p\<lparr> isAlive := False \<rparr> else p) (players s),
              phase := DAY_ANNOUNCE \<rparr>"
    using assms(1-3) night_end_players[OF assms(4)]
    by (simp add: afterPhaseLogic_no_win phaseTransitions_def)
  show ?thesis unfolding e by auto
qed

theorem night_end_resolution_witness:
  "phase night_end5 = NIGHT_END \<and> aliveWolves night_end5 \<noteq> 0
   \<and> aliveWolves night_end5 < aliveGood night_end5
   \<and> distinct (map player_id (players night_end5))
   \<and> map isAlive (players (afterPhaseLogic env0 night_end5)) = [True, True, False, True, False]
   \<and> phase (afterPhaseLogic env0 night_end5) = DAY_ANNOUNCE"
proof -
  have h1: "phase night_end5 = NIGHT_END"
    by (simp add: night_end5_def game5_def)
  have h2: "aliveWolves night_end5 \<noteq> 0"
    by (simp add: aliveWolves_def night_end5_def game5_def seat_def)
  have h3: "aliveWolves night_end5 < aliveGood night_end5"
    by (simp add: aliveWolves_def aliveGood_def night_end5_def game5_def seat_def)
  have h4: "distinct (map player_id (players night_end5))"
    by (simp add: night_end5_def game5_def seat_def)
  have "afterPhaseLogic env0 night_end5 =
           night_end5\<lparr> players := map (\<lambda>p. if (isDying p \<and> \<not> isProtected p) \<or> isPoisoned p
                                   then p\<lparr> isAlive := False \<rparr> else p) (players night_end5),
              phase := DAY_ANNOUNCE \<rparr>"
    using night_end_resolution[OF h1 h2 h3 h4, of env0] by (rule conjunct1)
  then have "map isAlive (players (afterPhaseLogic env0 night_end5)) = [True, True, False, True, False]
     \<and> phase (afterPhaseLogic env0 night_end5) = DAY_ANNOUNCE"
    by (simp add: night_end5_def game5_def seat_def)
  with h1 h2 h3 h4 show ?thesis by simp
qed

section \<open>The win check\<close>

text \<open>
  Claim C2. In every phase other than SETUP and GAME_OVER the phase effect first counts
  the alive werewolves and the alive other players. With no alive werewolf it sets the
  winner to VILLAGER and the phase to GAME_OVER; this test comes first, so it also
  decides when nobody at all is alive. Otherwise, with at least as many alive werewolves
  as alive others, it sets the winner to WEREWOLF and the phase to GAME_OVER. In both
  cases the effect dispatches the winner, the phase and two log messages and nothing
  else: the entry effects of the phase do not run.
\<close>

theorem win_check_first:
  assumes "phase s \<noteq> SETUP" and "phase s \<noteq> GAME_OVER"
  shows "(aliveWolves s = 0 \<longrightarrow>
            runPhaseLogic env s =
              ([SET_WINNER VILLAGER_WINS, NEXT_PHASE GAME_OVER,
                addLog env 0 Wolves_wiped_out SYSTEM alert],
               [addLog env 1 (Free_text (narration env)) HOST narrative])
            \<and> afterPhaseLogic env s =
                s\<lparr> phase := GAME_OVER, winner := Some VILLAGER_WINS,
                   logs := logs s @ [\<lparr> log_id = logId env 0, sender = SYSTEM,
                                       log_text = Wolves_wiped_out, log_type = alert \<rparr>,
                                     \<lparr> log_id = logId env 1, sender = HOST,
                                       log_text = Free_text (narration env), log_type = narrative \<rparr>] \<rparr>)
       \<and> (aliveWolves s \<noteq> 0 \<and> aliveWolves s \<ge> aliveGood s \<longrightarrow>
            runPhaseLogic env s =
              ([SET_WINNER WEREWOLF_WINS, NEXT_PHASE GAME_OVER,
                addLog env 0 Wolves_outnumber SYSTEM alert],
               [addLog env 1 (Free_text (narration env)) HOST narrative])
            \<and> afterPhaseLogic env s =
                s\<lparr> phase := GAME_OVER, winner := Some WEREWOLF_WINS,
                   logs := logs s @ [\<lparr> log_id = logId env 0, sender = SYSTEM,
                                       log_text = Wolves_outnumber, log_type = alert \<rparr>,
                                     \<lparr> log_id = logId env 1, sender = HOST,
                                       log_text = Free_text (narration env), log_type = narrative \<rparr>] \<rparr>)"
  using assms by (simp add: runPhaseLogic_def afterPhaseLogic_def addLog_def)

theorem win_check_first_witness:
  "phase wolves_dead5 \<noteq> SETUP \<and> phase wolves_dead5 \<noteq> GAME_OVER \<and> aliveWolves wolves_dead5 = 0
   \<and> winner (afterPhaseLogic env0 wolves_dead5) = Some VILLAGER_WINS
   \<and> phase (afterPhaseLogic env0 wolves_dead5) = GAME_OVER
   \<and> players (afterPhaseLogic env0 wolves_dead5) = players wolves_dead5
   \<and> phase parity4 \<noteq> SETUP \<and> phase parity4 \<noteq> GAME_OVER
   \<and> aliveWolves parity4 = 2 \<and> aliveGood parity4 = 2
   \<and> winner (afterPhaseLogic env0 parity4) = Some WEREWOLF_WINS
   \<and> phase (afterPhaseLogic env0 parity4) = GAME_OVER"
proof -
  have v1: "phase wolves_dead5 \<noteq> SETUP" and v2: "phase wolves_dead5 \<noteq> GAME_OVER"
    by (simp_all add: wolves_dead5_def game5_def)
  have v3: "aliveWolves wolves_dead5 = 0"
    by (simp add: aliveWolves_def wolves_dead5_def game5_def seat_def)
  have w1: "phase parity4 \<noteq> SETUP" and w2: "phase parity4 \<noteq> GAME_OVER"
    by (simp_all add: parity4_def game5_def)
  have w3: "aliveWolves parity4 = 2" and w4: "aliveGood parity4 = 2"
    by (simp_all add: aliveWolves_def aliveGood_def parity4_def game5_def seat_def)
  have v: "winner (afterPhaseLogic env0 wolves_dead5) = Some VILLAGER_WINS
         \<and> phase (afterPhaseLogic env0 wolves_dead5) = GAME_OVER
         \<and> players (afterPhaseLogic env0 wolves_dead5) = players wolves_dead5"
    using win_check_first[OF v1 v2, of env0] v3 by simp
  have w: "winner (afterPhaseLogic env0 parity4) = Some WEREWOLF_WINS
         \<and> phase (afterPhaseLogic env0 parity4) = GAME_OVER"
    using win_check_first[OF w1 w2, of env0] w3 w4 by simp
  from v1 v2 v3 v w1 w2 w3 w4 w show ?thesis by simp
qed

section \<open>Night start\<close>

text \<open>
  Claim C4. When the phase effect runs in NIGHT_START and passes the win check, then
  right after its dispatches every player has \<open>isDying\<close>, \<open>isProtected\<close> and \<open>isPoisoned\<close>
  false and \<open>voteTargetId\<close> null, and \<open>lastKilledId\<close> is null; the other fields of the
  players are as before. The same holds after the continuation of the effect, which
  appends the narration and moves to NIGHT_WEREWOLF.
\<close>

theorem night_start_resets:
  assumes "phase s = NIGHT_START" and "aliveWolves s \<noteq> 0" and "aliveWolves s < aliveGood s"
  shows "dispatchAll s (fst (runPhaseLogic env s)) =
           s\<lparr> players := map (\<lambda>p. p\<lparr> isDying := False, isProtected := False,
                                       isPoisoned := False, voteTargetId := None \<rparr>) (players s),
              lastKilledId := None \<rparr>
         \<and> (\<forall>s' \<in> {dispatchAll s (fst (runPhaseLogic env s)), afterPhaseLogic env s}.
              (\<forall>p \<in> set (players s').
                 \<not> isDying p \<and> \<not> isProtected p \<and> \<not> isPoisoned p \<and> voteTargetId p = None)
              \<and> lastKilledId s' = None)"
proof -
  have r: "runPhaseLogic env s = case_NIGHT_START env s"
    using assms by (simp add: no_win_phase phaseTransitions_def)
  have m: "map (\<lambda>p. if player_id p \<in> player_id ` set (players s)
                     then applyUpdates p resetFlags else p) (players s)
           = map (\<lambda>p. p\<lparr> isDying := False, isProtected := False,
                          isPoisoned := False, voteTargetId := None \<rparr>) (players s)"
    by (rule map_cong[OF refl]) (simp add: resetFlags_apply)
  have now: "dispatchAll s (fst (runPhaseLogic env s)) =
           s\<lparr> players := map (\<lambda>p. p\<lparr> isDying := False, isProtected := False,
                                       isPoisoned := False, voteTargetId := None \<rparr>) (players s),
              lastKilledId := None \<rparr>"
    by (simp add: r case_NIGHT_START_def dispatchAll_append dispatch_updates [OF resetFlags_id] m)
  have all: "afterPhaseLogic env s =
          dispatchAll (dispatchAll s (fst (runPhaseLogic env s))) (snd (runPhaseLogic env s))"
    by (simp add: afterPhaseLogic_def dispatchAll_append)
  have later: "afterPhaseLogic env s =
           s\<lparr> players := map (\<lambda>p. p\<lparr> isDying := False, isProtected := False,
                                       isPoisoned := False, voteTargetId := None \<rparr>) (players s),
              lastKilledId := None,
              logs := logs s @ [\<lparr> log_id = logId env 0, sender = HOST,
                                  log_text = Free_text (narration env), log_type = narrative \<rparr>],
              phase := NIGHT_WEREWOLF \<rparr>"
    unfolding all now by (simp add: r case_NIGHT_START_def addLog_def)
  show ?thesis
    unfolding later now by simp
qed

theorem night_start_resets_witness:
  "phase dusk5 = NIGHT_START \<and> aliveWolves dusk5 \<noteq> 0 \<and> aliveWolves dusk5 < aliveGood dusk5
   \<and> lastKilledId dusk5 = Some ''p-2''
   \<and> map isDying (players dusk5) = [False, False, True, False, False]
   \<and> map isDying (players (dispatchAll dusk5 (fst (runPhaseLogic env0 dusk5))))
        = [False, False, False, False, False]
   \<and> map isProtected (players (dispatchAll dusk5 (fst (runPhaseLogic env0 dusk5))))
        = [False, False, False, False, False]
   \<and> map isPoisoned (players (dispatchAll dusk5 (fst (runPhaseLogic env0 dusk5))))
        = [False, False, False, False, False]
   \<and> map voteTargetId (players (dispatchAll dusk5 (fst (runPhaseLogic env0 dusk5))))
        = [None, None, None, None, None]
   \<and> lastKilledId (dispatchAll dusk5 (fst (runPhaseLogic env0 dusk5))) = None"
proof -
  have h1: "phase dusk5 = NIGHT_START"
    by (simp add: dusk5_def game5_def)
  have h2: "aliveWolves dusk5 \<noteq> 0"
    by (simp add: aliveWolves_def dusk5_def game5_def seat_def)
  have h3: "aliveWolves dusk5 < aliveGood dusk5"
    by (simp add: aliveWolves_def aliveGood_def dusk5_def game5_def seat_def)
  have b: "lastKilledId dusk5 = Some ''p-2''
           \<and> map isDying (players dusk5) = [False, False, True, False, False]"
    by (simp add: dusk5_def game5_def seat_def)
  have "dispatchAll dusk5 (fst (runPhaseLogic env0 dusk5)) =
           dusk5\<lparr> players := map (\<lambda>p. p\<lparr> isDying := False, isProtected := False,
                                           isPoisoned := False, voteTargetId := None \<rparr>)
                                 (players dusk5),
                  lastKilledId := None \<rparr>"
    using night_start_resets[OF h1 h2 h3, of env0] by (rule conjunct1)
  then have "map isDying (players (dispatchAll dusk5 (fst (runPhaseLogic env0 dusk5))))
        = [False, False, False, False, False]
   \<and> map isProtected (players (dispatchAll dusk5 (fst (runPhaseLogic env0 dusk5))))
        = [False, False, False, False, False]
   \<and> map isPoisoned (players (dispatchAll dusk5 (fst (runPhaseLogic env0 dusk5))))
        = [False, False, False, False, False]
   \<and> map voteTargetId (players (dispatchAll dusk5 (fst (runPhaseLogic env0 dusk5))))
        = [None, None, None, None, None]
   \<and> lastKilledId (dispatchAll dusk5 (fst (runPhaseLogic env0 dusk5))) = None"
    by (simp add: dusk5_def game5_def seat_def)
  with h1 h2 h3 b show ?thesis by simp
qed

section \<open>The day vote\<close>

lemma proto_inherited: "''__proto__'' \<in> set objectPrototypeKeys"
  by (simp add: objectPrototypeKeys_def)

lemma countVote_keys:
  "map fst (countVote t vs) =
     (if t \<in> set (map fst vs) \<or> t = ''__proto__'' then map fst vs else map fst vs @ [t])"
  by (induction vs) force+

lemma countVote_distinct: "distinct (map fst vs) \<Longrightarrow> distinct (map fst (countVote t vs))"
  by (simp add: countVote_keys)

lemma countVote_map_of:
  "map_of (countVote t vs) k =
     (if k = t
      then (case map_of vs t of
              Some c \<Rightarrow> Some (addOne c)
            | None \<Rightarrow> (if t = ''__proto__'' then None
                       else if t \<in> set objectPrototypeKeys then Some NotANumber
                       else Some (Count 1)))
      else map_of vs k)"
  by (induction vs) auto

lemma tally_fold:
  "distinct (map fst (foldl tallyStep [] xs)) \<and>
   (\<forall>k. map_of (foldl tallyStep [] xs) k =
      (if k = [] \<or> length (filter (\<lambda>p. voteTargetId p = Some k) xs) = 0 \<or> k = ''__proto__''
       then None
       else if k \<in> set objectPrototypeKeys then Some NotANumber
       else Some (Count (length (filter (\<lambda>p. voteTargetId p = Some k) xs)))))"
proof (induction xs rule: rev_induct)
  case Nil
  then show ?case by simp
next
  case (snoc x xs)
  show ?case
  proof (cases "voteTargetId x")
    case None
    with snoc show ?thesis by (simp add: tallyStep_def truthy_def)
  next
    case (Some t)
    show ?thesis
    proof (cases "t = []")
      case True
      with Some snoc show ?thesis by (auto simp: tallyStep_def truthy_def)
    next
      case False
      with Some snoc show ?thesis
        by (auto simp: tallyStep_def truthy_def countVote_distinct countVote_map_of)
    qed
  qed
qed

lemma tallyVotes_fold: "tallyVotes ps = foldl tallyStep [] (filter isAlive ps)"
  unfolding tallyVotes_def tallyStep_def ..

lemma tallyVotes_distinct: "distinct (map fst (tallyVotes ps))"
  using tally_fold[of "filter isAlive ps"] by (simp add: tallyVotes_fold)

lemma filter_votes: "length (filter (\<lambda>p. voteTargetId p = Some k) (filter isAlive ps)) = votesFor ps k"
  by (simp add: votesFor_def conj_commute)

lemma tallyVotes_map_of:
  "map_of (tallyVotes ps) k =
     (if k = [] \<or> votesFor ps k = 0 \<or> k = ''__proto__'' then None
      else if k \<in> set objectPrototypeKeys then Some NotANumber
      else Some (Count (votesFor ps k)))"
  using tally_fold[of "filter isAlive ps", unfolded filter_votes]
  unfolding tallyVotes_fold by blast

lemma tallyVotes_entries:
  "(k, Count c) \<in> set (tallyVotes ps) \<longleftrightarrow>
     k \<noteq> [] \<and> k \<notin> set objectPrototypeKeys \<and> c = votesFor ps k \<and> 0 < c"
proof -
  have "(k, Count c) \<in> set (tallyVotes ps) \<longleftrightarrow> map_of (tallyVotes ps) k = Some (Count c)"
    using tallyVotes_distinct by simp
  also have "\<dots> \<longleftrightarrow> k \<noteq> [] \<and> k \<notin> set objectPrototypeKeys \<and> c = votesFor ps k \<and> 0 < c"
    unfolding tallyVotes_map_of using proto_inherited by auto
  finally show ?thesis .
qed

lemma scanVotes_snoc: "scanVotes (vs @ [e]) = scanStep (scanVotes vs) e"
  by (simp add: scanVotes_def)

lemma scanVotes_shape:
  assumes "distinct (map fst vs)" and "\<forall>k. (k, Count 0) \<notin> set vs"
  shows "case scanVotes vs of (m, v, tie) \<Rightarrow>
           ((\<forall>k c. (k, Count c) \<notin> set vs) \<longrightarrow> m = 0 \<and> v = None \<and> \<not> tie) \<and>
           ((\<exists>k c. (k, Count c) \<in> set vs) \<longrightarrow>
              (\<exists>k. v = Some k \<and> (k, Count m) \<in> set vs
                   \<and> (\<forall>k' c'. (k', Count c') \<in> set vs \<longrightarrow> c' \<le> m)
                   \<and> (tie \<longleftrightarrow> (\<exists>k'. k' \<noteq> k \<and> (k', Count m) \<in> set vs))))"
  using assms
proof (induction vs rule: rev_induct)
  case Nil
  then show ?case by (simp add: scanVotes_def)
next
  case (snoc e vs)
  obtain m v tie where sv: "scanVotes vs = (m, v, tie)" by (cases "scanVotes vs") auto
  obtain i cell where e: "e = (i, cell)" by (cases e) auto
  have d1: "distinct (map fst vs)" using snoc.prems(1) by simp
  have d2: "i \<notin> fst ` set vs" using snoc.prems(1) e by simp
  have d3: "\<forall>k. (k, Count 0) \<notin> set vs" using snoc.prems(2) by simp
  have ih0: "case scanVotes vs of (m, v, tie) \<Rightarrow>
           ((\<forall>k c. (k, Count c) \<notin> set vs) \<longrightarrow> m = 0 \<and> v = None \<and> \<not> tie) \<and>
           ((\<exists>k c. (k, Count c) \<in> set vs) \<longrightarrow>
              (\<exists>k. v = Some k \<and> (k, Count m) \<in> set vs
                   \<and> (\<forall>k' c'. (k', Count c') \<in> set vs \<longrightarrow> c' \<le> m)
                   \<and> (tie \<longleftrightarrow> (\<exists>k'. k' \<noteq> k \<and> (k', Count m) \<in> set vs))))"
    using snoc.IH[OF d1 d3] .
  have ih1: "(\<forall>k c. (k, Count c) \<notin> set vs) \<Longrightarrow> m = 0 \<and> v = None \<and> \<not> tie"
    using ih0 unfolding sv prod.case by blast
  have ih2: "(\<exists>k c. (k, Count c) \<in> set vs) \<Longrightarrow>
              (\<exists>k. v = Some k \<and> (k, Count m) \<in> set vs
                   \<and> (\<forall>k' c'. (k', Count c') \<in> set vs \<longrightarrow> c' \<le> m)
                   \<and> (tie \<longleftrightarrow> (\<exists>k'. k' \<noteq> k \<and> (k', Count m) \<in> set vs)))"
    using ih0 unfolding sv prod.case by blast
  have step: "scanVotes (vs @ [e]) = scanStep (m, v, tie) (i, cell)"
    by (simp add: scanVotes_snoc sv e)
  show ?case
  proof (cases cell)
    case NotANumber
    have same: "\<And>k c. (k, Count c) \<in> set (vs @ [e]) \<longleftrightarrow> (k, Count c) \<in> set vs"
      using e NotANumber by auto
    have r: "scanVotes (vs @ [e]) = (m, v, tie)"
      unfolding step NotANumber by simp
    show ?thesis
      unfolding r prod.case same using ih1 ih2 by blast
  next
    case (Count c)
    have c0: "0 < c" using snoc.prems(2) e Count by (cases c) auto
    have mem: "\<And>k' c'. (k', Count c') \<in> set (vs @ [e]) \<longleftrightarrow>
                   (k', Count c') \<in> set vs \<or> (k' = i \<and> c' = c)"
      using e Count by auto
    have inot: "\<And>c'. (i, Count c') \<notin> set vs" using d2 by force
    show ?thesis
    proof (cases "\<exists>k c. (k, Count c) \<in> set vs")
      case False
      with ih1 have z: "m = 0" "v = None" "\<not> tie" by auto
      have r: "scanVotes (vs @ [e]) = (c, Some i, False)"
        unfolding step Count using z c0 by simp
      have only: "\<And>k' c'. (k', Count c') \<in> set (vs @ [e]) \<longleftrightarrow> k' = i \<and> c' = c"
        unfolding mem using False by blast
      show ?thesis
        unfolding r prod.case only by auto
    next
      case True
      with ih2 obtain k where k1: "v = Some k" and k2: "(k, Count m) \<in> set vs"
        and k3: "\<forall>k' c'. (k', Count c') \<in> set vs \<longrightarrow> c' \<le> m"
        and k4: "tie \<longleftrightarrow> (\<exists>k'. k' \<noteq> k \<and> (k', Count m) \<in> set vs)" by blast
      have ki: "k \<noteq> i" using k2 inot by blast
      have ex: "\<exists>k c. (k, Count c) \<in> set (vs @ [e])" unfolding mem by blast
      consider "m < c" | "c = m" | "c < m" by linarith
      then show ?thesis
      proof cases
        case 1
        have r: "scanVotes (vs @ [e]) = (c, Some i, False)"
          unfolding step Count using 1 by simp
        have a1: "(i, Count c) \<in> set (vs @ [e])" unfolding mem by simp
        have a2: "\<forall>k' c'. (k', Count c') \<in> set (vs @ [e]) \<longrightarrow> c' \<le> c"
        proof (intro allI impI)
          fix k' c' assume "(k', Count c') \<in> set (vs @ [e])"
          then consider "(k', Count c') \<in> set vs" | "c' = c" unfolding mem by blast
          then show "c' \<le> c"
          proof cases
            case 1
            then have "c' \<le> m" using k3 by blast
            with \<open>m < c\<close> show ?thesis by simp
          next
            case 2
            then show ?thesis by simp
          qed
        qed
        have a3: "\<not> (\<exists>k'. k' \<noteq> i \<and> (k', Count c) \<in> set (vs @ [e]))"
        proof
          assume "\<exists>k'. k' \<noteq> i \<and> (k', Count c) \<in> set (vs @ [e])"
          then obtain k' where "k' \<noteq> i" "(k', Count c) \<in> set vs" unfolding mem by blast
          then have "c \<le> m" using k3 by blast
          with 1 show False by simp
        qed
        show ?thesis
          unfolding r prod.case using ex a1 a2 a3 by blast
      next
        case 2
        have r: "scanVotes (vs @ [e]) = (m, Some k, True)"
          unfolding step Count using 2 k1 by simp
        have a1: "(k, Count m) \<in> set (vs @ [e])" unfolding mem using k2 by simp
        have a2: "\<forall>k' c'. (k', Count c') \<in> set (vs @ [e]) \<longrightarrow> c' \<le> m"
          unfolding mem using k3 2 by blast
        have "i \<noteq> k \<and> (i, Count m) \<in> set (vs @ [e])"
          unfolding mem using ki 2 by simp
        then have a3: "\<exists>k'. k' \<noteq> k \<and> (k', Count m) \<in> set (vs @ [e])" ..
        show ?thesis
          unfolding r prod.case using ex a1 a2 a3 by blast
      next
        case 3
        have r: "scanVotes (vs @ [e]) = (m, Some k, tie)"
          unfolding step Count using 3 k1 by simp
        have a1: "(k, Count m) \<in> set (vs @ [e])" unfolding mem using k2 by simp
        have a2: "\<forall>k' c'. (k', Count c') \<in> set (vs @ [e]) \<longrightarrow> c' \<le> m"
        proof (intro allI impI)
          fix k' c' assume "(k', Count c') \<in> set (vs @ [e])"
          then consider "(k', Count c') \<in> set vs" | "c' = c" unfolding mem by blast
          then show "c' \<le> m"
          proof cases
            case 1
            then show ?thesis using k3 by blast
          next
            case 2
            with \<open>c < m\<close> show ?thesis by simp
          qed
        qed
        have a3: "tie \<longleftrightarrow> (\<exists>k'. k' \<noteq> k \<and> (k', Count m) \<in> set (vs @ [e]))"
        proof -
          have "\<And>k'. (k', Count m) \<in> set (vs @ [e]) \<longleftrightarrow> (k', Count m) \<in> set vs"
            unfolding mem using 3 by auto
          then show ?thesis using k4 by simp
        qed
        show ?thesis
          unfolding r prod.case using ex a1 a2 a3 by blast
      qed
    qed
  qed
qed

lemma scanOutcome_char:
  assumes "distinct (map fst vs)" and "\<forall>k. (k, Count 0) \<notin> set vs"
  shows "scanOutcome vs = Some c \<longleftrightarrow>
           (\<exists>m. (c, Count m) \<in> set vs
                \<and> (\<forall>k' c'. (k', Count c') \<in> set vs \<and> k' \<noteq> c \<longrightarrow> c' < m))"
proof (cases "\<exists>k c. (k, Count c) \<in> set vs")
  case False
  obtain m v tie where sv: "scanVotes vs = (m, v, tie)" by (cases "scanVotes vs") auto
  from scanVotes_shape[OF assms] False sv have "v = None" by auto
  then have "scanOutcome vs = None" by (simp add: scanOutcome_def sv)
  with False show ?thesis by auto
next
  case True
  obtain m v tie where sv: "scanVotes vs = (m, v, tie)" by (cases "scanVotes vs") auto
  from scanVotes_shape[OF assms] True sv
  obtain k where k: "v = Some k" "(k, Count m) \<in> set vs"
      "\<forall>k' c'. (k', Count c') \<in> set vs \<longrightarrow> c' \<le> m"
      "tie \<longleftrightarrow> (\<exists>k'. k' \<noteq> k \<and> (k', Count m) \<in> set vs)" by auto
  have out: "scanOutcome vs = (if tie then None else Some k)"
    by (simp add: scanOutcome_def sv k(1))
  have uniq: "\<And>a b b'. (a, b) \<in> set vs \<Longrightarrow> (a, b') \<in> set vs \<Longrightarrow> b = b'"
    using assms(1) by (meson eq_key_imp_eq_value)
  show ?thesis
  proof
    assume "scanOutcome vs = Some c"
    then have nt: "\<not> tie" and kc: "k = c" using out by (auto split: if_splits)
    have "\<forall>k' c'. (k', Count c') \<in> set vs \<and> k' \<noteq> c \<longrightarrow> c' < m"
    proof (intro allI impI)
      fix k' c' assume a: "(k', Count c') \<in> set vs \<and> k' \<noteq> c"
      have "c' \<le> m" using k(3) a by blast
      moreover have "c' \<noteq> m" using nt k(4) a kc by auto
      ultimately show "c' < m" by simp
    qed
    with k(2) kc show "\<exists>m. (c, Count m) \<in> set vs
                \<and> (\<forall>k' c'. (k', Count c') \<in> set vs \<and> k' \<noteq> c \<longrightarrow> c' < m)"
      by blast
  next
    assume "\<exists>m. (c, Count m) \<in> set vs
                \<and> (\<forall>k' c'. (k', Count c') \<in> set vs \<and> k' \<noteq> c \<longrightarrow> c' < m)"
    then obtain m' where m': "(c, Count m') \<in> set vs"
      "\<forall>k' c'. (k', Count c') \<in> set vs \<and> k' \<noteq> c \<longrightarrow> c' < m'"
      by blast
    have le: "m' \<le> m" using k(3) m'(1) by blast
    have kc: "k = c"
    proof (rule ccontr)
      assume "k \<noteq> c"
      then have "m < m'" using m'(2) k(2) by blast
      with le show False by simp
    qed
    have mm: "m' = m" using uniq[OF m'(1)] k(2) kc by auto
    have "\<not> tie"
    proof
      assume tie
      then obtain k' where "k' \<noteq> k" "(k', Count m) \<in> set vs" using k(4) by blast
      then have "m < m'" using m'(2) kc by blast
      with mm show False by simp
    qed
    then show "scanOutcome vs = Some c" using out kc by simp
  qed
qed

lemma scanOutcome_perm:
  assumes "mset vs' = mset vs" and "distinct (map fst vs)" and "\<forall>k. (k, Count 0) \<notin> set vs"
  shows "scanOutcome vs' = scanOutcome vs"
proof -
  have s: "set vs' = set vs" using assms(1) by (rule mset_eq_setD)
  have "mset (map fst vs') = mset (map fst vs)" using assms(1) by simp
  then have d: "distinct (map fst vs')" using assms(2) by (metis mset_eq_imp_distinct_iff)
  have p: "\<forall>k. (k, Count 0) \<notin> set vs'" using assms(3) s by simp
  have "\<And>c. scanOutcome vs' = Some c \<longleftrightarrow> scanOutcome vs = Some c"
    unfolding scanOutcome_char[OF d p] scanOutcome_char[OF assms(2,3)] s ..
  then show ?thesis by (metis not_Some_eq)
qed

lemma tallyVotes_positive: "\<forall>k. (k, Count 0) \<notin> set (tallyVotes ps)"
  by (simp add: tallyVotes_entries)

text \<open>
  The outcome of the count and the scan is the candidate that leads among those that
  the vote count can hold as numbers.
\<close>

lemma tally_outcome_plain:
  "scanOutcome (tallyVotes ps) = Some c \<longleftrightarrow>
     c \<noteq> [] \<and> c \<notin> set objectPrototypeKeys \<and> 0 < votesFor ps c
     \<and> (\<forall>d. d \<noteq> c \<and> d \<noteq> [] \<and> d \<notin> set objectPrototypeKeys \<longrightarrow> votesFor ps d < votesFor ps c)"
proof -
  have "scanOutcome (tallyVotes ps) = Some c \<longleftrightarrow>
          (\<exists>m. (c, Count m) \<in> set (tallyVotes ps)
               \<and> (\<forall>k' c'. (k', Count c') \<in> set (tallyVotes ps) \<and> k' \<noteq> c \<longrightarrow> c' < m))"
    by (rule scanOutcome_char[OF tallyVotes_distinct tallyVotes_positive])
  also have "\<dots> \<longleftrightarrow> c \<noteq> [] \<and> c \<notin> set objectPrototypeKeys \<and> 0 < votesFor ps c
     \<and> (\<forall>d. d \<noteq> c \<and> d \<noteq> [] \<and> d \<notin> set objectPrototypeKeys \<longrightarrow> votesFor ps d < votesFor ps c)"
    unfolding tallyVotes_entries
  proof (intro iffI)
    assume "\<exists>m. (c \<noteq> [] \<and> c \<notin> set objectPrototypeKeys \<and> m = votesFor ps c \<and> 0 < m) \<and>
        (\<forall>k' c'. (k' \<noteq> [] \<and> k' \<notin> set objectPrototypeKeys \<and> c' = votesFor ps k' \<and> 0 < c')
                  \<and> k' \<noteq> c \<longrightarrow> c' < m)"
    then have c: "c \<noteq> []" "c \<notin> set objectPrototypeKeys" "0 < votesFor ps c"
      and o: "\<forall>k'. k' \<noteq> [] \<and> k' \<notin> set objectPrototypeKeys \<and> 0 < votesFor ps k' \<and> k' \<noteq> c
                   \<longrightarrow> votesFor ps k' < votesFor ps c"
      by auto
    have "\<forall>d. d \<noteq> c \<and> d \<noteq> [] \<and> d \<notin> set objectPrototypeKeys \<longrightarrow> votesFor ps d < votesFor ps c"
    proof (intro allI impI)
      fix d assume d: "d \<noteq> c \<and> d \<noteq> [] \<and> d \<notin> set objectPrototypeKeys"
      show "votesFor ps d < votesFor ps c"
      proof (cases "votesFor ps d = 0")
        case True
        with c(3) show ?thesis by simp
      next
        case False
        with d o show ?thesis by simp
      qed
    qed
    with c show "c \<noteq> [] \<and> c \<notin> set objectPrototypeKeys \<and> 0 < votesFor ps c
     \<and> (\<forall>d. d \<noteq> c \<and> d \<noteq> [] \<and> d \<notin> set objectPrototypeKeys \<longrightarrow> votesFor ps d < votesFor ps c)"
      by simp
  next
    assume a: "c \<noteq> [] \<and> c \<notin> set objectPrototypeKeys \<and> 0 < votesFor ps c
     \<and> (\<forall>d. d \<noteq> c \<and> d \<noteq> [] \<and> d \<notin> set objectPrototypeKeys \<longrightarrow> votesFor ps d < votesFor ps c)"
    then show "\<exists>m. (c \<noteq> [] \<and> c \<notin> set objectPrototypeKeys \<and> m = votesFor ps c \<and> 0 < m) \<and>
        (\<forall>k' c'. (k' \<noteq> [] \<and> k' \<notin> set objectPrototypeKeys \<and> c' = votesFor ps k' \<and> 0 < c')
                  \<and> k' \<noteq> c \<longrightarrow> c' < m)"
      by (intro exI[of _ "votesFor ps c"]) auto
  qed
  finally show ?thesis .
qed

lemma tally_outcome:
  assumes "\<forall>p \<in> set ps. \<forall>t. isAlive p \<and> voteTargetId p = Some t
             \<longrightarrow> t \<noteq> [] \<and> t \<notin> set objectPrototypeKeys"
  shows "scanOutcome (tallyVotes ps) = Some c \<longleftrightarrow> soleLeader ps c"
proof -
  have z: "\<And>d. d = [] \<or> d \<in> set objectPrototypeKeys \<Longrightarrow> votesFor ps d = 0"
    using assms by (auto simp: votesFor_def filter_empty_conv)
  show ?thesis
    unfolding tally_outcome_plain soleLeader_def
  proof (intro iffI)
    assume a: "c \<noteq> [] \<and> c \<notin> set objectPrototypeKeys \<and> 0 < votesFor ps c
     \<and> (\<forall>d. d \<noteq> c \<and> d \<noteq> [] \<and> d \<notin> set objectPrototypeKeys \<longrightarrow> votesFor ps d < votesFor ps c)"
    have "\<forall>d. d \<noteq> c \<longrightarrow> votesFor ps d < votesFor ps c"
    proof (intro allI impI)
      fix d assume "d \<noteq> c"
      show "votesFor ps d < votesFor ps c"
      proof (cases "d = [] \<or> d \<in> set objectPrototypeKeys")
        case True
        then have "votesFor ps d = 0" by (rule z)
        with a show ?thesis by simp
      next
        case False
        with a \<open>d \<noteq> c\<close> show ?thesis by simp
      qed
    qed
    with a show "0 < votesFor ps c \<and> (\<forall>d. d \<noteq> c \<longrightarrow> votesFor ps d < votesFor ps c)" by simp
  next
    assume a: "0 < votesFor ps c \<and> (\<forall>d. d \<noteq> c \<longrightarrow> votesFor ps d < votesFor ps c)"
    then have "\<not> (c = [] \<or> c \<in> set objectPrototypeKeys)" using z[of c] by auto
    with a show "c \<noteq> [] \<and> c \<notin> set objectPrototypeKeys \<and> 0 < votesFor ps c
     \<and> (\<forall>d. d \<noteq> c \<and> d \<noteq> [] \<and> d \<notin> set objectPrototypeKeys \<longrightarrow> votesFor ps d < votesFor ps c)"
      by simp
  qed
qed

lemma day_execute_now:
  "fst (case_DAY_EXECUTE env s) =
     (case scanOutcome (tallyVotes (players s)) of
        Some c \<Rightarrow>
          (case find (\<lambda>p. player_id p = c) (players s) of
             Some victim \<Rightarrow> [addLog env 0 (Was_executed (name victim)) SYSTEM alert,
                              UPDATE_PLAYER (player_id victim) killed]
           | None \<Rightarrow> [])
      | None \<Rightarrow> [addLog env 0 Vote_tied SYSTEM normal])"
proof -
  let ?T = "tallyVotes (players s)"
  obtain m v tie where sv: "scanVotes ?T = (m, v, tie)" by (cases "scanVotes ?T") auto
  note shape = scanVotes_shape[OF tallyVotes_distinct tallyVotes_positive, of "players s"]
  show ?thesis
  proof (cases "\<exists>k c. (k, Count c) \<in> set ?T")
    case False
    with shape sv have "v = None" "\<not> tie" by auto
    then show ?thesis by (simp add: case_DAY_EXECUTE_def scanOutcome_def sv truthy_def)
  next
    case True
    with shape sv obtain k where k: "v = Some k" "(k, Count m) \<in> set ?T" by auto
    then have "k \<noteq> []" by (simp add: tallyVotes_entries)
    then show ?thesis
      by (simp add: case_DAY_EXECUTE_def scanOutcome_def sv truthy_def k(1))
  qed
qed

lemma day_execute_later: "snd (case_DAY_EXECUTE env s) = [INCREMENT_DAY, NEXT_PHASE NIGHT_START]"
  by (simp add: case_DAY_EXECUTE_def split: prod.splits)

lemma day_execute_players:
  "players (dispatchAll s (fst (case_DAY_EXECUTE env s) @ snd (case_DAY_EXECUTE env s))) =
     (case scanOutcome (tallyVotes (players s)) of
        Some c \<Rightarrow> map (\<lambda>p. if player_id p = c then p\<lparr> isAlive := False \<rparr> else p) (players s)
      | None \<Rightarrow> players s)"
proof (cases "scanOutcome (tallyVotes (players s))")
  case None
  then show ?thesis by (simp add: day_execute_now day_execute_later addLog_def)
next
  case (Some c)
  show ?thesis
  proof (cases "find (\<lambda>p. player_id p = c) (players s)")
    case None
    then have "\<forall>p \<in> set (players s). player_id p \<noteq> c" by (simp add: find_None_iff)
    then have "map (\<lambda>p. if player_id p = c then p\<lparr> isAlive := False \<rparr> else p) (players s) = players s"
      by (intro map_idI) auto
    with None Some show ?thesis by (simp add: day_execute_now day_execute_later)
  next
    case (Some victim)
    then have "player_id victim = c" by (auto simp: find_Some_iff)
    with Some \<open>scanOutcome (tallyVotes (players s)) = Some c\<close> show ?thesis
      by (simp add: day_execute_now day_execute_later addLog_def killed_alive)
  qed
qed

lemma tallyVotes_numbers:
  assumes "\<forall>p \<in> set ps. \<forall>t. isAlive p \<and> voteTargetId p = Some t
             \<longrightarrow> t \<noteq> [] \<and> t \<notin> set objectPrototypeKeys"
  shows "(k, cell) \<in> set (tallyVotes ps) \<longleftrightarrow> cell = Count (votesFor ps k) \<and> 0 < votesFor ps k"
proof -
  have z: "k = [] \<or> k \<in> set objectPrototypeKeys \<Longrightarrow> votesFor ps k = 0"
    using assms by (auto simp: votesFor_def filter_empty_conv)
  have "(k, cell) \<in> set (tallyVotes ps) \<longleftrightarrow> map_of (tallyVotes ps) k = Some cell"
    using tallyVotes_distinct by simp
  also have "\<dots> \<longleftrightarrow> cell = Count (votesFor ps k) \<and> 0 < votesFor ps k"
    unfolding tallyVotes_map_of using z proto_inherited by auto
  finally show ?thesis .
qed

text \<open>
  Votes for a property of \<^verbatim>\<open>Object.prototype\<close> are lost: with three votes for
  \<open>constructor\<close>, one for \<open>__proto__\<close> and one for \<open>p-0\<close>, the vote count holds no number
  for the first, nothing for the second, and \<open>p-0\<close> is the outcome.
\<close>

lemma inherited_votes_are_lost:
  "tallyVotes (players ballot8) = [(''constructor'', NotANumber), (''p-0'', Count 1)]
   \<and> scanOutcome (tallyVotes (players ballot8)) = Some ''p-0''"
  by (simp add: ballot8_def game5_def seat_def tallyVotes_def truthy_def scanOutcome_def
        scanVotes_def objectPrototypeKeys_def)

text \<open>
  Claim C3. When the phase effect runs in DAY_EXECUTE and passes the win check, the
  tally has one entry for each candidate that an alive player names in \<open>voteTargetId\<close>,
  with the number of those players: dead players and players without a vote add nothing.
  If one candidate has more votes than every other, the players with that id are set
  not-alive and nobody else changes; if no candidate does (the top count is shared, or
  no vote was cast) the players stay as they are. The votes of the alive players name
  neither the empty string, which JavaScript treats like null, nor a property of
  \<^verbatim>\<open>Object.prototype\<close>, which the vote count cannot count; the ids that \<open>handleStartGame\<close>
  gives are of neither kind.
\<close>

theorem day_execute_tally:
  assumes "phase s = DAY_EXECUTE" and "aliveWolves s \<noteq> 0" and "aliveWolves s < aliveGood s"
    and "\<forall>p \<in> set (players s). \<forall>t. isAlive p \<and> voteTargetId p = Some t
           \<longrightarrow> t \<noteq> [] \<and> t \<notin> set objectPrototypeKeys"
  shows "(\<forall>k cell. (k, cell) \<in> set (tallyVotes (players s))
            \<longleftrightarrow> cell = Count (votesFor (players s) k) \<and> 0 < votesFor (players s) k)
       \<and> (soleLeader (players s) c \<longrightarrow>
            players (afterPhaseLogic env s) =
              map (\<lambda>p. if player_id p = c then p\<lparr> isAlive := False \<rparr> else p) (players s))
       \<and> ((\<forall>d. \<not> soleLeader (players s) d) \<longrightarrow> players (afterPhaseLogic env s) = players s)"
proof (intro conjI allI impI)
  fix k cell
  show "(k, cell) \<in> set (tallyVotes (players s))
            \<longleftrightarrow> cell = Count (votesFor (players s) k) \<and> 0 < votesFor (players s) k"
    by (rule tallyVotes_numbers[OF assms(4)])
next
  have after: "players (afterPhaseLogic env s) =
     (case scanOutcome (tallyVotes (players s)) of
        Some c \<Rightarrow> map (\<lambda>p. if player_id p = c then p\<lparr> isAlive := False \<rparr> else p) (players s)
      | None \<Rightarrow> players s)"
    using assms(1-3)
    by (simp add: afterPhaseLogic_def no_win_phase phaseTransitions_def day_execute_players)
  {
    assume "soleLeader (players s) c"
    then have "scanOutcome (tallyVotes (players s)) = Some c"
      by (simp add: tally_outcome[OF assms(4)])
    then show "players (afterPhaseLogic env s) =
              map (\<lambda>p. if player_id p = c then p\<lparr> isAlive := False \<rparr> else p) (players s)"
      by (simp add: after)
  }
  {
    assume "\<forall>d. \<not> soleLeader (players s) d"
    then have "scanOutcome (tallyVotes (players s)) = None"
      using tally_outcome[OF assms(4)] by (metis not_Some_eq)
    then show "players (afterPhaseLogic env s) = players s"
      by (simp add: after)
  }
qed

theorem day_execute_tally_witness:
  "phase vote5 = DAY_EXECUTE \<and> aliveWolves vote5 \<noteq> 0 \<and> aliveWolves vote5 < aliveGood vote5
   \<and> map voteTargetId (players vote5)
        = [Some ''p-4'', Some ''p-4'', Some ''p-4'', Some ''p-1'', None]
   \<and> ''p-4'' \<notin> set objectPrototypeKeys \<and> ''p-1'' \<notin> set objectPrototypeKeys
   \<and> votesFor (players vote5) ''p-4'' = 3 \<and> votesFor (players vote5) ''p-1'' = 1
   \<and> soleLeader (players vote5) ''p-4''
   \<and> map isAlive (players (afterPhaseLogic env0 vote5)) = [True, True, True, True, False]
   \<and> phase tie5 = DAY_EXECUTE \<and> aliveWolves tie5 \<noteq> 0 \<and> aliveWolves tie5 < aliveGood tie5
   \<and> map voteTargetId (players tie5)
        = [Some ''p-1'', Some ''p-2'', Some ''p-1'', Some ''p-2'', Some ''p-3'']
   \<and> ''p-2'' \<notin> set objectPrototypeKeys \<and> ''p-3'' \<notin> set objectPrototypeKeys
   \<and> votesFor (players tie5) ''p-1'' = 2 \<and> votesFor (players tie5) ''p-2'' = 2
   \<and> votesFor (players tie5) ''p-3'' = 1
   \<and> players (afterPhaseLogic env0 tie5) = players tie5"
proof -
  have h1: "phase vote5 = DAY_EXECUTE"
    by (simp add: vote5_def game5_def)
  have h2: "aliveWolves vote5 \<noteq> 0"
    by (simp add: aliveWolves_def vote5_def game5_def seat_def)
  have h3: "aliveWolves vote5 < aliveGood vote5"
    by (simp add: aliveWolves_def aliveGood_def vote5_def game5_def seat_def)
  have pl: "''p-4'' \<notin> set objectPrototypeKeys \<and> ''p-1'' \<notin> set objectPrototypeKeys
      \<and> ''p-2'' \<notin> set objectPrototypeKeys \<and> ''p-3'' \<notin> set objectPrototypeKeys"
    by (simp add: objectPrototypeKeys_def)
  have h4: "\<forall>p \<in> set (players vote5). \<forall>t. isAlive p \<and> voteTargetId p = Some t
           \<longrightarrow> t \<noteq> [] \<and> t \<notin> set objectPrototypeKeys"
    using pl by (auto simp: vote5_def game5_def seat_def)
  have v4: "map voteTargetId (players vote5)
        = [Some ''p-4'', Some ''p-4'', Some ''p-4'', Some ''p-1'', None]"
    by (simp add: vote5_def game5_def seat_def)
  have n4: "votesFor (players vote5) ''p-4'' = 3" and n1: "votesFor (players vote5) ''p-1'' = 1"
    by (simp_all add: votesFor_def vote5_def game5_def seat_def)
  have le: "\<And>d. d \<noteq> ''p-4'' \<Longrightarrow> votesFor (players vote5) d < 3"
    by (simp add: votesFor_def vote5_def game5_def seat_def)
  have lead: "soleLeader (players vote5) ''p-4''"
    unfolding soleLeader_def n4 using le by simp
  have "players (afterPhaseLogic env0 vote5) =
          map (\<lambda>p. if player_id p = ''p-4'' then p\<lparr> isAlive := False \<rparr> else p) (players vote5)"
    using day_execute_tally[OF h1 h2 h3 h4, of "''p-4''" env0] lead by simp
  then have a: "map isAlive (players (afterPhaseLogic env0 vote5)) = [True, True, True, True, False]"
    by (simp add: vote5_def game5_def seat_def)
  have t1: "phase tie5 = DAY_EXECUTE"
    by (simp add: tie5_def game5_def)
  have t2: "aliveWolves tie5 \<noteq> 0"
    by (simp add: aliveWolves_def tie5_def game5_def seat_def)
  have t3: "aliveWolves tie5 < aliveGood tie5"
    by (simp add: aliveWolves_def aliveGood_def tie5_def game5_def seat_def)
  have t4: "\<forall>p \<in> set (players tie5). \<forall>t. isAlive p \<and> voteTargetId p = Some t
           \<longrightarrow> t \<noteq> [] \<and> t \<notin> set objectPrototypeKeys"
    using pl by (auto simp: tie5_def game5_def seat_def)
  have u4: "map voteTargetId (players tie5)
        = [Some ''p-1'', Some ''p-2'', Some ''p-1'', Some ''p-2'', Some ''p-3'']"
    by (simp add: tie5_def game5_def seat_def)
  have m1: "votesFor (players tie5) ''p-1'' = 2" and m2: "votesFor (players tie5) ''p-2'' = 2"
    and m3: "votesFor (players tie5) ''p-3'' = 1"
    by (simp_all add: votesFor_def tie5_def game5_def seat_def)
  have bound: "\<And>d. votesFor (players tie5) d \<le> 2"
    by (auto simp: votesFor_def tie5_def game5_def seat_def)
  have none: "\<forall>d. \<not> soleLeader (players tie5) d"
  proof (intro allI notI)
    fix d assume s: "soleLeader (players tie5) d"
    show False
    proof (cases "d = ''p-1''")
      case True
      with s have "votesFor (players tie5) ''p-2'' < votesFor (players tie5) ''p-1''"
        by (simp add: soleLeader_def)
      with m1 m2 show False by simp
    next
      case False
      with s have "votesFor (players tie5) ''p-1'' < votesFor (players tie5) d"
        by (simp add: soleLeader_def)
      with m1 bound[of d] show False by simp
    qed
  qed
  have b: "players (afterPhaseLogic env0 tie5) = players tie5"
    using day_execute_tally[OF t1 t2 t3 t4, of "''p-4''" env0] none by simp
  from h1 h2 h3 v4 pl n4 n1 lead a t1 t2 t3 u4 m1 m2 m3 b show ?thesis by simp
qed

section \<open>The potions over a run\<close>

text \<open>
  No handler of a running game dispatches an action that refills a potion or renames a
  player; the lemmas below go through the handlers one by one.
\<close>

lemma no_refill_keeps:
  "\<not> refills a \<Longrightarrow>
     (save (witchPotions (gameReducer t a)) \<longrightarrow> save (witchPotions t)) \<and>
     (poison (witchPotions (gameReducer t a)) \<longrightarrow> poison (witchPotions t))"
proof (cases a)
  case (SET_WITCH_POTION p used)
  assume "\<not> refills a"
  with SET_WITCH_POTION show ?thesis by (cases p) simp_all
qed simp_all

lemma handleBotVoting_benign: "a \<in> set (handleBotVoting env s) \<Longrightarrow> \<not> refills a \<and> \<not> renames a"
  by (auto simp: noUpdates_def resetFlags_def killed_def handleBotVoting_def Let_def split: if_splits)

lemma handleBotWerewolfAction_benign: "a \<in> set (handleBotWerewolfAction env s) \<Longrightarrow> \<not> refills a \<and> \<not> renames a"
  by (auto simp: noUpdates_def resetFlags_def killed_def handleBotWerewolfAction_def Let_def split: if_splits)

lemma case_NIGHT_START_benign:
  "a \<in> set (fst (case_NIGHT_START env s)) \<union> set (snd (case_NIGHT_START env s)) \<Longrightarrow> \<not> refills a \<and> \<not> renames a"
  by (auto simp: noUpdates_def resetFlags_def killed_def case_NIGHT_START_def addLog_def)

lemma case_NIGHT_WEREWOLF_benign:
  "a \<in> set (fst (case_NIGHT_WEREWOLF env s)) \<union> set (snd (case_NIGHT_WEREWOLF env s)) \<Longrightarrow> \<not> refills a \<and> \<not> renames a"
  by (auto simp: noUpdates_def resetFlags_def killed_def case_NIGHT_WEREWOLF_def addLog_def dest: handleBotWerewolfAction_benign
        split: if_splits)

lemma case_NIGHT_SEER_benign:
  "a \<in> set (fst (case_NIGHT_SEER env s)) \<union> set (snd (case_NIGHT_SEER env s)) \<Longrightarrow> \<not> refills a \<and> \<not> renames a"
  by (auto simp: noUpdates_def resetFlags_def killed_def case_NIGHT_SEER_def addLog_def handleBotSeerAction_def split: if_splits)

lemma case_NIGHT_WITCH_benign:
  "a \<in> set (fst (case_NIGHT_WITCH env s)) \<union> set (snd (case_NIGHT_WITCH env s)) \<Longrightarrow> \<not> refills a \<and> \<not> renames a"
  by (auto simp: noUpdates_def resetFlags_def killed_def case_NIGHT_WITCH_def addLog_def handleBotWitchAction_def split: if_splits)

lemma case_NIGHT_END_benign:
  "a \<in> set (fst (case_NIGHT_END env s)) \<union> set (snd (case_NIGHT_END env s)) \<Longrightarrow> \<not> refills a \<and> \<not> renames a"
  by (auto simp: noUpdates_def resetFlags_def killed_def case_NIGHT_END_def)

lemma case_DAY_ANNOUNCE_benign:
  "a \<in> set (fst (case_DAY_ANNOUNCE env s)) \<union> set (snd (case_DAY_ANNOUNCE env s)) \<Longrightarrow> \<not> refills a \<and> \<not> renames a"
  by (auto simp: noUpdates_def resetFlags_def killed_def case_DAY_ANNOUNCE_def addLog_def)

lemma case_DAY_DISCUSS_benign:
  "a \<in> set (fst (case_DAY_DISCUSS env s)) \<union> set (snd (case_DAY_DISCUSS env s)) \<Longrightarrow> \<not> refills a \<and> \<not> renames a"
  by (auto simp: noUpdates_def resetFlags_def killed_def case_DAY_DISCUSS_def addLog_def)

lemma case_DAY_VOTE_benign:
  "a \<in> set (fst (case_DAY_VOTE env s)) \<union> set (snd (case_DAY_VOTE env s)) \<Longrightarrow> \<not> refills a \<and> \<not> renames a"
  by (auto simp: noUpdates_def resetFlags_def killed_def case_DAY_VOTE_def addLog_def dest: handleBotVoting_benign
        split: option.splits if_splits)

lemma case_DAY_EXECUTE_benign:
  "a \<in> set (fst (case_DAY_EXECUTE env s)) \<union> set (snd (case_DAY_EXECUTE env s)) \<Longrightarrow> \<not> refills a \<and> \<not> renames a"
  by (auto simp: noUpdates_def resetFlags_def killed_def case_DAY_EXECUTE_def addLog_def split: prod.splits option.splits if_splits)

lemmas cases_benign =
  case_NIGHT_START_benign case_NIGHT_WEREWOLF_benign case_NIGHT_SEER_benign
  case_NIGHT_WITCH_benign case_NIGHT_END_benign case_DAY_ANNOUNCE_benign
  case_DAY_DISCUSS_benign case_DAY_VOTE_benign case_DAY_EXECUTE_benign

lemma phaseTransitions_benign:
  "a \<in> set (fst (phaseTransitions env s)) \<union> set (snd (phaseTransitions env s)) \<Longrightarrow> \<not> refills a \<and> \<not> renames a"
  using cases_benign[of a env s]
  by (cases "phase s") (simp_all add: phaseTransitions_def)

lemma runPhaseLogic_benign:
  "a \<in> set (fst (runPhaseLogic env s)) \<union> set (snd (runPhaseLogic env s)) \<Longrightarrow> \<not> refills a \<and> \<not> renames a"
  using phaseTransitions_benign[of a env s]
  by (auto simp: noUpdates_def resetFlags_def killed_def runPhaseLogic_def addLog_def split: if_splits)

lemma handleHumanAction_benign:
  "a \<in> set (fst (handleHumanAction env s sel)) \<union> set (snd (handleHumanAction env s sel))
   \<Longrightarrow> \<not> refills a \<and> \<not> renames a"
  by (auto simp: noUpdates_def resetFlags_def killed_def handleHumanAction_def addLog_def split: if_splits option.splits)

lemma fire_benign: "a \<in> set (fire e s) \<Longrightarrow> \<not> refills a \<and> \<not> renames a"
proof (cases e)
  case (PhaseEffect env)
  assume "a \<in> set (fire e s)"
  with PhaseEffect show ?thesis using runPhaseLogic_benign[of a env s] by simp
next
  case (PhaseContinuation env snap)
  assume "a \<in> set (fire e s)"
  with PhaseContinuation show ?thesis using runPhaseLogic_benign[of a env snap] by simp
next
  case (HumanAction env sel)
  assume "a \<in> set (fire e s)"
  with HumanAction show ?thesis using handleHumanAction_benign[of a env s sel] by simp
next
  case (HumanContinuation env snap sel)
  assume "a \<in> set (fire e s)"
  with HumanContinuation show ?thesis using handleHumanAction_benign[of a env snap sel] by simp
next
  case (WitchSave env)
  assume "a \<in> set (fire e s)"
  with WitchSave show ?thesis
    by (auto simp: noUpdates_def resetFlags_def killed_def handleWitchSave_def addLog_def split: option.splits if_splits)
next
  case (WitchPoison env sel)
  assume "a \<in> set (fire e s)"
  with WitchPoison show ?thesis
    by (auto simp: noUpdates_def resetFlags_def killed_def handleWitchPoison_def addLog_def split: option.splits if_splits)
next
  case SkipPhase
  assume "a \<in> set (fire e s)"
  with SkipPhase show ?thesis by (auto simp: noUpdates_def resetFlags_def killed_def skipPhase_def split: if_splits)
next
  case (Chat m)
  assume "a \<in> set (fire e s)"
  with Chat show ?thesis by simp
qed

lemma dispatched_benign: "a \<in> set (dispatched s evs) \<Longrightarrow> \<not> refills a \<and> \<not> renames a"
proof (induction evs arbitrary: s)
  case Nil
  then show ?case by simp
next
  case (Cons e es)
  then have "a \<in> set (fire e s) \<or> a \<in> set (dispatched (dispatchAll s (fire e s)) es)"
    by simp
  then show ?case
    using fire_benign Cons.IH by blast
qed

lemma history_Cons: "\<exists>r. history s as = s # r"
  by (cases as) simp_all

lemma length_history: "length (history s as) = Suc (length as)"
  by (induction as arbitrary: s) simp_all

lemma history_nth: "i \<le> length as \<Longrightarrow> history s as ! i = dispatchAll s (take i as)"
proof (induction as arbitrary: s i)
  case Nil
  then show ?case by simp
next
  case (Cons a as)
  then show ?case by (cases i) simp_all
qed

lemma falls_Cons2: "falls f (a # b # r) = (if f a \<and> \<not> f b then 1 else 0) + falls f (b # r)"
  by (simp add: falls_def)

lemma rises_Cons2: "rises f (a # b # r) = (if \<not> f a \<and> f b then 1 else 0) + rises f (b # r)"
  by (simp add: rises_def)

lemma history_flag:
  assumes "\<forall>a \<in> set as. \<forall>t. f (gameReducer t a) \<longrightarrow> f t"
  shows "rises f (history s as) = 0 \<and> falls f (history s as) \<le> 1
         \<and> (\<not> f s \<longrightarrow> falls f (history s as) = 0)"
  using assms
proof (induction as arbitrary: s)
  case Nil
  show ?case by (simp add: rises_def falls_def)
next
  case (Cons a as)
  obtain r where r: "history (gameReducer s a) as = gameReducer s a # r"
    using history_Cons by blast
  have step: "f (gameReducer s a) \<longrightarrow> f s"
    using Cons.prems by (meson list.set_intros(1))
  have rest: "\<forall>a \<in> set as. \<forall>t. f (gameReducer t a) \<longrightarrow> f t"
    using Cons.prems by (meson list.set_intros(2))
  have ih: "rises f (gameReducer s a # r) = 0 \<and> falls f (gameReducer s a # r) \<le> 1
         \<and> (\<not> f (gameReducer s a) \<longrightarrow> falls f (gameReducer s a # r) = 0)"
    using Cons.IH[OF rest, of "gameReducer s a"] unfolding r .
  show ?case
    unfolding history.simps r falls_Cons2 rises_Cons2 using step ih by auto
qed

lemma dispatchAll_flag:
  assumes "\<forall>a \<in> set as. \<forall>t. f (gameReducer t a) \<longrightarrow> f t"
  shows "f (dispatchAll s as) \<longrightarrow> f s"
  using assms
proof (induction as arbitrary: s)
  case Nil
  show ?case by simp
next
  case (Cons a as)
  have step: "f (gameReducer s a) \<longrightarrow> f s"
    using Cons.prems by (meson list.set_intros(1))
  have rest: "\<forall>a \<in> set as. \<forall>t. f (gameReducer t a) \<longrightarrow> f t"
    using Cons.prems by (meson list.set_intros(2))
  have "f (dispatchAll (gameReducer s a) as) \<longrightarrow> f (gameReducer s a)"
    using Cons.IH[OF rest] .
  with step show ?case unfolding dispatchAll_Cons by blast
qed

lemma history_later:
  assumes "\<forall>a \<in> set as. \<forall>t. f (gameReducer t a) \<longrightarrow> f t"
    and "i \<le> j" and "j < length (history s as)" and "\<not> f (history s as ! i)"
  shows "\<not> f (history s as ! j)"
proof -
  have j: "j \<le> length as" using assms(3) by (simp add: length_history)
  have "take i (take j as) @ drop i (take j as) = take j as"
    by (rule append_take_drop_id)
  then have t: "take j as = take i as @ drop i (take j as)"
    using assms(2) by (simp add: min_def)
  have "set (drop i (take j as)) \<subseteq> set as"
    using set_drop_subset set_take_subset by (rule subset_trans)
  then have "\<forall>a \<in> set (drop i (take j as)). \<forall>t. f (gameReducer t a) \<longrightarrow> f t"
    using assms(1) by blast
  then have "f (dispatchAll (dispatchAll s (take i as)) (drop i (take j as)))
             \<longrightarrow> f (dispatchAll s (take i as))"
    by (rule dispatchAll_flag)
  then have "f (dispatchAll s (take j as)) \<longrightarrow> f (dispatchAll s (take i as))"
    using t dispatchAll_append[of s "take i as" "drop i (take j as)"] by simp
  moreover have "history s as ! i = dispatchAll s (take i as)"
    using assms(2) j by (simp add: history_nth)
  moreover have "history s as ! j = dispatchAll s (take j as)"
    using j by (simp add: history_nth)
  ultimately show ?thesis
    using assms(4) by simp
qed

text \<open>
  Claim C5. Take any state and any run of events of one game from it, and follow the
  state through every single dispatch of the run. The \<open>save\<close> flag never goes from false
  to true and goes from true to false at most once; the same holds for \<open>poison\<close>. Once
  \<open>save\<close> is false at some point of the run, \<open>handleWitchSave\<close> leaves the state as it is at
  every later point, and once \<open>poison\<close> is false, so does \<open>handleWitchPoison\<close>, whatever
  target is selected.
\<close>

theorem potions_consumed_once:
  "rises (\<lambda>t. save (witchPotions t)) (history s (dispatched s evs)) = 0
   \<and> falls (\<lambda>t. save (witchPotions t)) (history s (dispatched s evs)) \<le> 1
   \<and> rises (\<lambda>t. poison (witchPotions t)) (history s (dispatched s evs)) = 0
   \<and> falls (\<lambda>t. poison (witchPotions t)) (history s (dispatched s evs)) \<le> 1
   \<and> (\<forall>i j. i \<le> j \<and> j < length (history s (dispatched s evs))
          \<and> \<not> save (witchPotions (history s (dispatched s evs) ! i)) \<longrightarrow>
          dispatchAll (history s (dispatched s evs) ! j)
            (handleWitchSave env (history s (dispatched s evs) ! j))
          = history s (dispatched s evs) ! j)
   \<and> (\<forall>i j. i \<le> j \<and> j < length (history s (dispatched s evs))
          \<and> \<not> poison (witchPotions (history s (dispatched s evs) ! i)) \<longrightarrow>
          dispatchAll (history s (dispatched s evs) ! j)
            (handleWitchPoison env (history s (dispatched s evs) ! j) sel)
          = history s (dispatched s evs) ! j)"
proof -
  let ?h = "history s (dispatched s evs)"
  have sv: "\<forall>a \<in> set (dispatched s evs). \<forall>t. save (witchPotions (gameReducer t a)) \<longrightarrow> save (witchPotions t)"
    using dispatched_benign no_refill_keeps by (intro ballI allI) blast
  have po: "\<forall>a \<in> set (dispatched s evs). \<forall>t. poison (witchPotions (gameReducer t a)) \<longrightarrow> poison (witchPotions t)"
    using dispatched_benign no_refill_keeps by (intro ballI allI) blast
  have c: "\<And>t. \<not> save (witchPotions t) \<Longrightarrow> handleWitchSave env t = []"
    by (simp add: handleWitchSave_def split: option.splits)
  have d: "\<And>t. \<not> poison (witchPotions t) \<Longrightarrow> handleWitchPoison env t sel = []"
    by (simp add: handleWitchPoison_def split: option.splits)
  show ?thesis
  proof (intro conjI allI impI)
    show "rises (\<lambda>t. save (witchPotions t)) ?h = 0"
      using history_flag[OF sv, of s] by simp
    show "falls (\<lambda>t. save (witchPotions t)) ?h \<le> 1"
      using history_flag[OF sv, of s] by simp
    show "rises (\<lambda>t. poison (witchPotions t)) ?h = 0"
      using history_flag[OF po, of s] by simp
    show "falls (\<lambda>t. poison (witchPotions t)) ?h \<le> 1"
      using history_flag[OF po, of s] by simp
  next
    fix i j
    assume "i \<le> j \<and> j < length ?h \<and> \<not> save (witchPotions (?h ! i))"
    then have "\<not> save (witchPotions (?h ! j))"
      using history_later[OF sv, of i j s] by simp
    then show "dispatchAll (?h ! j) (handleWitchSave env (?h ! j)) = ?h ! j"
      by (simp add: c)
  next
    fix i j
    assume "i \<le> j \<and> j < length ?h \<and> \<not> poison (witchPotions (?h ! i))"
    then have "\<not> poison (witchPotions (?h ! j))"
      using history_later[OF po, of i j s] by simp
    then show "dispatchAll (?h ! j) (handleWitchPoison env (?h ! j) sel) = ?h ! j"
      by (simp add: d)
  qed
qed

theorem potions_consumed_once_witness:
  "length (history witch5 (dispatched witch5 [WitchSave env0, WitchSave env0, SkipPhase])) = 5
   \<and> save (witchPotions (history witch5 (dispatched witch5 [WitchSave env0, WitchSave env0, SkipPhase]) ! 1))
   \<and> \<not> save (witchPotions (history witch5 (dispatched witch5 [WitchSave env0, WitchSave env0, SkipPhase]) ! 2))
   \<and> falls (\<lambda>t. save (witchPotions t))
         (history witch5 (dispatched witch5 [WitchSave env0, WitchSave env0, SkipPhase])) \<le> 1
   \<and> dispatchAll (history witch5 (dispatched witch5 [WitchSave env0, WitchSave env0, SkipPhase]) ! 4)
         (handleWitchSave env0
            (history witch5 (dispatched witch5 [WitchSave env0, WitchSave env0, SkipPhase]) ! 4))
       = history witch5 (dispatched witch5 [WitchSave env0, WitchSave env0, SkipPhase]) ! 4"
proof -
  let ?h = "history witch5 (dispatched witch5 [WitchSave env0, WitchSave env0, SkipPhase])"
  have d: "dispatched witch5 [WitchSave env0, WitchSave env0, SkipPhase] =
     [UPDATE_PLAYER ''p-4'' (noUpdates\<lparr> upd_isDying := Some False, upd_isProtected := Some True \<rparr>),
      SET_WITCH_POTION Save True,
      addLog env0 0 Antidote_used SYSTEM normal,
      NEXT_PHASE NIGHT_END]"
    by (simp add: witch5_def game5_def handleWitchSave_def skipPhase_def addLog_def)
  have l: "length ?h = 5"
    unfolding d by simp
  have s1: "save (witchPotions (?h ! 1))" and s2: "\<not> save (witchPotions (?h ! 2))"
    unfolding d by (simp_all add: witch5_def game5_def)
  have i: "(2::nat) \<le> 4 \<and> 4 < length ?h \<and> \<not> save (witchPotions (?h ! 2))"
    using l s2 by simp
  note inst = potions_consumed_once[of witch5 "[WitchSave env0, WitchSave env0, SkipPhase]" env0 None]
  have f: "falls (\<lambda>t. save (witchPotions t)) ?h \<le> 1"
    using inst by simp
  have n: "dispatchAll (?h ! 4) (handleWitchSave env0 (?h ! 4)) = ?h ! 4"
    using inst i by blast
  from l s1 s2 f n show ?thesis by simp
qed

section \<open>The witch\<close>

text \<open>
  Claim C6. \<open>handleWitchSave\<close> changes the state exactly when \<open>lastKilledId\<close> is set and
  the \<open>save\<close> potion is unused. Then it sets \<open>isDying\<close> to false and \<open>isProtected\<close> to true
  on the players whose id is \<open>lastKilledId\<close> and on nobody else, sets \<open>save\<close> to false and
  appends one log message. Otherwise it dispatches nothing. \<open>lastKilledId\<close> is not the
  empty string, which JavaScript would treat like null.
\<close>

theorem witch_save_legal:
  assumes "lastKilledId s \<noteq> Some []"
  shows "(dispatchAll s (handleWitchSave env s) \<noteq> s
            \<longleftrightarrow> lastKilledId s \<noteq> None \<and> save (witchPotions s))
         \<and> (lastKilledId s \<noteq> None \<and> save (witchPotions s) \<longrightarrow>
              dispatchAll s (handleWitchSave env s) =
                s\<lparr> players := map (\<lambda>p. if Some (player_id p) = lastKilledId s
                                        then p\<lparr> isDying := False, isProtected := True \<rparr> else p)
                                  (players s),
                   witchPotions := (witchPotions s)\<lparr> save := False \<rparr>,
                   logs := logs s @ [\<lparr> log_id = logId env 0, sender = SYSTEM,
                                       log_text = Antidote_used, log_type = normal \<rparr>] \<rparr>)
         \<and> (\<not> (lastKilledId s \<noteq> None \<and> save (witchPotions s)) \<longrightarrow>
              handleWitchSave env s = [])"
proof (cases "lastKilledId s \<noteq> None \<and> save (witchPotions s)")
  case True
  then obtain k where k: "lastKilledId s = Some k" "k \<noteq> []" "save (witchPotions s)"
    using assms by auto
  have e: "dispatchAll s (handleWitchSave env s) =
                s\<lparr> players := map (\<lambda>p. if Some (player_id p) = lastKilledId s
                                        then p\<lparr> isDying := False, isProtected := True \<rparr> else p)
                                  (players s),
                   witchPotions := (witchPotions s)\<lparr> save := False \<rparr>,
                   logs := logs s @ [\<lparr> log_id = logId env 0, sender = SYSTEM,
                                       log_text = Antidote_used, log_type = normal \<rparr>] \<rparr>"
    using k by (simp add: handleWitchSave_def addLog_def upd_saved)
  have "dispatchAll s (handleWitchSave env s) \<noteq> s"
    by (rule save_differs) (simp add: e k)
  with True e show ?thesis by simp
next
  case False
  then have "handleWitchSave env s = []"
    by (auto simp: handleWitchSave_def split: option.splits)
  with False show ?thesis by auto
qed

theorem witch_save_legal_witness:
  "lastKilledId witch5 \<noteq> Some [] \<and> lastKilledId witch5 \<noteq> None \<and> save (witchPotions witch5)
   \<and> dispatchAll witch5 (handleWitchSave env0 witch5) \<noteq> witch5
   \<and> map isDying (players (dispatchAll witch5 (handleWitchSave env0 witch5)))
        = [False, False, False, False, False]
   \<and> map isProtected (players (dispatchAll witch5 (handleWitchSave env0 witch5)))
        = [False, False, False, False, True]
   \<and> \<not> save (witchPotions (dispatchAll witch5 (handleWitchSave env0 witch5)))
   \<and> lastKilledId hunt5 = None \<and> handleWitchSave env0 hunt5 = []"
proof -
  have h: "lastKilledId witch5 \<noteq> Some []"
    by (simp add: witch5_def game5_def)
  have l: "lastKilledId witch5 \<noteq> None \<and> save (witchPotions witch5)"
    by (simp add: witch5_def game5_def)
  have ne: "dispatchAll witch5 (handleWitchSave env0 witch5) \<noteq> witch5"
    using witch_save_legal[OF h, of env0] l by blast
  have "dispatchAll witch5 (handleWitchSave env0 witch5) =
          witch5\<lparr> players := map (\<lambda>p. if Some (player_id p) = lastKilledId witch5
                                        then p\<lparr> isDying := False, isProtected := True \<rparr> else p)
                                  (players witch5),
                   witchPotions := (witchPotions witch5)\<lparr> save := False \<rparr>,
                   logs := logs witch5 @ [\<lparr> log_id = logId env0 0, sender = SYSTEM,
                                            log_text = Antidote_used, log_type = normal \<rparr>] \<rparr>"
    using witch_save_legal[OF h, of env0] l by blast
  then have a: "map isDying (players (dispatchAll witch5 (handleWitchSave env0 witch5)))
        = [False, False, False, False, False]
   \<and> map isProtected (players (dispatchAll witch5 (handleWitchSave env0 witch5)))
        = [False, False, False, False, True]
   \<and> \<not> save (witchPotions (dispatchAll witch5 (handleWitchSave env0 witch5)))"
    by (simp add: witch5_def game5_def seat_def)
  have g: "lastKilledId hunt5 \<noteq> Some []" and n: "lastKilledId hunt5 = None"
    by (simp_all add: hunt5_def game5_def)
  have b: "handleWitchSave env0 hunt5 = []"
    using witch_save_legal[OF g, of env0] n by simp
  from h l ne a n b show ?thesis by simp
qed

text \<open>
  Claim C9. With the \<open>poison\<close> potion unused and a selected target that is the id of a
  player, \<open>handleWitchPoison\<close> sets \<open>isPoisoned\<close> on the players with that id, sets
  \<open>poison\<close> to false, appends one log message and moves the phase to NIGHT_END. Nothing
  is assumed about the phase or about the target being alive: the handler does not look
  at them. The selected id is not the empty string, which JavaScript would treat like
  null.
\<close>

theorem witch_poison_unchecked:
  assumes "poison (witchPotions s)" and "t \<noteq> []" and "t \<in> player_id ` set (players s)"
  shows "dispatchAll s (handleWitchPoison env s (Some t)) =
           s\<lparr> players := map (\<lambda>p. if player_id p = t then p\<lparr> isPoisoned := True \<rparr> else p)
                             (players s),
              witchPotions := (witchPotions s)\<lparr> poison := False \<rparr>,
              logs := logs s @ [\<lparr> log_id = logId env 0, sender = SYSTEM,
                                  log_text = Poison_used, log_type = normal \<rparr>],
              phase := NIGHT_END \<rparr>
         \<and> (\<exists>p \<in> set (players (dispatchAll s (handleWitchPoison env s (Some t)))).
               player_id p = t \<and> isPoisoned p)"
proof -
  have e: "dispatchAll s (handleWitchPoison env s (Some t)) =
           s\<lparr> players := map (\<lambda>p. if player_id p = t then p\<lparr> isPoisoned := True \<rparr> else p)
                             (players s),
              witchPotions := (witchPotions s)\<lparr> poison := False \<rparr>,
              logs := logs s @ [\<lparr> log_id = logId env 0, sender = SYSTEM,
                                  log_text = Poison_used, log_type = normal \<rparr>],
              phase := NIGHT_END \<rparr>"
    using assms(1,2) by (simp add: handleWitchPoison_def addLog_def upd_poisoned)
  from assms(3) obtain q where q: "q \<in> set (players s)" "player_id q = t" by auto
  then have "q\<lparr> isPoisoned := True \<rparr>
      \<in> set (map (\<lambda>p. if player_id p = t then p\<lparr> isPoisoned := True \<rparr> else p) (players s))"
    by force
  then have "\<exists>p \<in> set (map (\<lambda>p. if player_id p = t then p\<lparr> isPoisoned := True \<rparr> else p) (players s)).
               player_id p = t \<and> isPoisoned p"
    using q by (intro bexI[of _ "q\<lparr> isPoisoned := True \<rparr>"]) simp_all
  then show ?thesis unfolding e by simp
qed

theorem witch_poison_unchecked_witness:
  "poison (witchPotions late5) \<and> ''p-4'' \<noteq> [] \<and> ''p-4'' \<in> player_id ` set (players late5)
   \<and> phase late5 = DAY_VOTE \<and> \<not> isAlive (players late5 ! 4)
   \<and> map isPoisoned (players (dispatchAll late5 (handleWitchPoison env0 late5 (Some ''p-4''))))
        = [False, False, False, False, True]
   \<and> \<not> poison (witchPotions (dispatchAll late5 (handleWitchPoison env0 late5 (Some ''p-4''))))
   \<and> phase (dispatchAll late5 (handleWitchPoison env0 late5 (Some ''p-4''))) = NIGHT_END"
proof -
  have h1: "poison (witchPotions late5)"
    by (simp add: late5_def game5_def)
  have h2: "''p-4'' \<noteq> []" by simp
  have h3: "''p-4'' \<in> player_id ` set (players late5)"
    by (simp add: late5_def game5_def seat_def)
  have c: "phase late5 = DAY_VOTE \<and> \<not> isAlive (players late5 ! 4)"
    by (simp add: late5_def game5_def seat_def)
  have "dispatchAll late5 (handleWitchPoison env0 late5 (Some ''p-4'')) =
           late5\<lparr> players := map (\<lambda>p. if player_id p = ''p-4'' then p\<lparr> isPoisoned := True \<rparr> else p)
                             (players late5),
              witchPotions := (witchPotions late5)\<lparr> poison := False \<rparr>,
              logs := logs late5 @ [\<lparr> log_id = logId env0 0, sender = SYSTEM,
                                  log_text = Poison_used, log_type = normal \<rparr>],
              phase := NIGHT_END \<rparr>"
    using witch_poison_unchecked[OF h1 h2 h3, of env0] by (rule conjunct1)
  then have a: "map isPoisoned (players (dispatchAll late5 (handleWitchPoison env0 late5 (Some ''p-4''))))
        = [False, False, False, False, True]
   \<and> \<not> poison (witchPotions (dispatchAll late5 (handleWitchPoison env0 late5 (Some ''p-4''))))
   \<and> phase (dispatchAll late5 (handleWitchPoison env0 late5 (Some ''p-4''))) = NIGHT_END"
    by (simp add: late5_def game5_def seat_def)
  from h1 h2 h3 c a show ?thesis by simp
qed

section \<open>The reducer\<close>

lemma gameReducerRT_typed: "gameReducerRT (runtime s) a = Inr (runtime (gameReducer s a))"
proof (cases a)
  case (SET_WITCH_POTION p used)
  then show ?thesis by (cases p) (simp_all add: runtime_def)
qed (auto simp: runtime_def o_def)

lemma runRT_typed: "runRT (runtime s) as = Inr (runtime (dispatchAll s as))"
  by (induction as arbitrary: s) (simp_all add: gameReducerRT_typed)

text \<open>
  On an object that is no game state the reducer does throw: these are the two branches.
\<close>

lemma gameReducerRT_throws:
  "gameReducerRT ((runtime s)\<lparr> rt_players := None \<rparr>) (UPDATE_PLAYER playerId u) = Inl TypeError"
  "gameReducerRT ((runtime s)\<lparr> rt_players := Some [None] \<rparr>) (UPDATE_PLAYER playerId u)
     = Inl TypeError"
  "gameReducerRT ((runtime s)\<lparr> rt_logs := None \<rparr>) (ADD_LOG message) = Inl TypeError"
  by simp_all

text \<open>
  Claim C10. On every state of type \<^verbatim>\<open>GameState\<close> and for every action the reducer
  returns, without a TypeError, and what it returns is again a state of that type: it is
  the state that \<open>gameReducer\<close> gives. So no list of actions, reduced from such a state,
  ever fails. An \<^verbatim>\<open>UPDATE_PLAYER\<close> whose id is the id of no player leaves the list of
  players as it is, and an action of an unrecognized type leaves the whole state as it
  is.
\<close>

theorem gameReducer_total:
  "gameReducerRT (runtime s) a = Inr (runtime (gameReducer s a))
   \<and> runRT (runtime s) as = Inr (runtime (dispatchAll s as))
   \<and> (playerId \<notin> player_id ` set (players s) \<longrightarrow>
        players (gameReducer s (UPDATE_PLAYER playerId u)) = players s
        \<and> gameReducerRT (runtime s) (UPDATE_PLAYER playerId u) = Inr (runtime s))
   \<and> gameReducer s (UNRECOGNIZED t) = s
   \<and> gameReducerRT (runtime s) (UNRECOGNIZED t) = Inr (runtime s)"
proof -
  have m: "playerId \<notin> player_id ` set (players s) \<Longrightarrow>
        map (\<lambda>p. if player_id p = playerId then applyUpdates p u else p) (players s) = players s"
    by (intro map_idI) auto
  have "playerId \<notin> player_id ` set (players s) \<longrightarrow>
        players (gameReducer s (UPDATE_PLAYER playerId u)) = players s
        \<and> gameReducerRT (runtime s) (UPDATE_PLAYER playerId u) = Inr (runtime s)"
  proof
    assume n: "playerId \<notin> player_id ` set (players s)"
    have "gameReducer s (UPDATE_PLAYER playerId u) = s"
      using m[OF n] by simp
    then show "players (gameReducer s (UPDATE_PLAYER playerId u)) = players s
        \<and> gameReducerRT (runtime s) (UPDATE_PLAYER playerId u) = Inr (runtime s)"
      unfolding gameReducerRT_typed by simp
  qed
  then show ?thesis
    by (simp add: gameReducerRT_typed runRT_typed)
qed

theorem gameReducer_total_witness:
  "''p-9'' \<notin> player_id ` set (players hunt5)
   \<and> players (gameReducer hunt5 (UPDATE_PLAYER ''p-9'' killed)) = players hunt5
   \<and> gameReducerRT (runtime hunt5) (UPDATE_PLAYER ''p-9'' killed) = Inr (runtime hunt5)
   \<and> gameReducerRT (runtime hunt5) (UNRECOGNIZED ''PAUSE'') = Inr (runtime hunt5)
   \<and> runRT (runtime hunt5) [UPDATE_PLAYER ''p-9'' killed, UNRECOGNIZED ''PAUSE'', INCREMENT_DAY]
        = Inr (runtime (hunt5\<lparr> dayCount := 2 \<rparr>))"
proof -
  have h: "''p-9'' \<notin> player_id ` set (players hunt5)"
    by (simp add: hunt5_def game5_def table5_def seat_def)
  note inst = gameReducer_total[of hunt5 "UNRECOGNIZED ''PAUSE''"
      "[UPDATE_PLAYER ''p-9'' killed, UNRECOGNIZED ''PAUSE'', INCREMENT_DAY]"
      "''p-9''" killed "''PAUSE''"]
  have u: "players (gameReducer hunt5 (UPDATE_PLAYER ''p-9'' killed)) = players hunt5
       \<and> gameReducerRT (runtime hunt5) (UPDATE_PLAYER ''p-9'' killed) = Inr (runtime hunt5)"
    using inst h by blast
  have n: "gameReducerRT (runtime hunt5) (UNRECOGNIZED ''PAUSE'') = Inr (runtime hunt5)"
    using inst by blast
  have "runRT (runtime hunt5) [UPDATE_PLAYER ''p-9'' killed, UNRECOGNIZED ''PAUSE'', INCREMENT_DAY]
        = Inr (runtime (dispatchAll hunt5
             [UPDATE_PLAYER ''p-9'' killed, UNRECOGNIZED ''PAUSE'', INCREMENT_DAY]))"
    using inst by blast
  moreover have "dispatchAll hunt5
             [UPDATE_PLAYER ''p-9'' killed, UNRECOGNIZED ''PAUSE'', INCREMENT_DAY]
           = hunt5\<lparr> dayCount := 2 \<rparr>"
    using u by (simp add: hunt5_def game5_def)
  ultimately have r: "runRT (runtime hunt5)
        [UPDATE_PLAYER ''p-9'' killed, UNRECOGNIZED ''PAUSE'', INCREMENT_DAY]
        = Inr (runtime (hunt5\<lparr> dayCount := 2 \<rparr>))"
    by simp
  from h u n r show ?thesis by simp
qed

section \<open>The werewolf kill\<close>

text \<open>
  What the two kill handlers dispatch. The bot handler takes its target from the alive
  players that are not werewolves and dispatches nothing when there is none. The human
  handler takes the selected id as it is.
\<close>

lemma werewolf_kill_paths:
  "(filter (\<lambda>p. isAlive p \<and> role p \<noteq> WEREWOLF) (players s) = [] \<longrightarrow>
      handleBotWerewolfAction env s = [])
   \<and> (filter (\<lambda>p. isAlive p \<and> role p \<noteq> WEREWOLF) (players s) \<noteq> [] \<longrightarrow>
        (\<exists>target \<in> set (players s). isAlive target \<and> role target \<noteq> WEREWOLF \<and>
           dispatchAll s (handleBotWerewolfAction env s) =
             s\<lparr> lastKilledId := Some (player_id target),
                players := map (\<lambda>p. if player_id p = player_id target
                                     then p\<lparr> isDying := True \<rparr> else p) (players s) \<rparr>))
   \<and> (phase s = NIGHT_WEREWOLF \<and> getHumanPlayer s = Some human \<and> isAlive human
        \<and> role human = WEREWOLF \<and> t \<noteq> [] \<longrightarrow>
        snd (handleHumanAction env s (Some t)) = [] \<and>
        dispatchAll s (fst (handleHumanAction env s (Some t))) =
          s\<lparr> lastKilledId := Some t,
             players := map (\<lambda>p. if player_id p = t then p\<lparr> isDying := True \<rparr> else p) (players s),
             logs := logs s @ [\<lparr> log_id = logId env 0, sender = SYSTEM,
                                 log_text = You_attacked (nameOf s t), log_type = normal \<rparr>],
             phase := NIGHT_SEER \<rparr>)
   \<and> (phase s = NIGHT_WEREWOLF \<longrightarrow> handleHumanAction env s None = ([], []))"
proof (intro conjI impI)
  let ?pool = "filter (\<lambda>p. isAlive p \<and> role p \<noteq> WEREWOLF) (players s)"
  assume ne: "?pool \<noteq> []"
  define target where "target = ?pool ! pick env 0 (length ?pool)"
  have "pick env 0 (length ?pool) < length ?pool"
    using ne by (simp add: pick_def)
  then have "target \<in> set ?pool"
    unfolding target_def by (rule nth_mem)
  then have t: "target \<in> set (players s)" "isAlive target" "role target \<noteq> WEREWOLF"
    by auto
  have "handleBotWerewolfAction env s =
          [SET_LAST_KILLED (Some (player_id target)),
           UPDATE_PLAYER (player_id target) (noUpdates\<lparr> upd_isDying := Some True \<rparr>)]"
    using ne by (simp add: handleBotWerewolfAction_def target_def Let_def)
  then have "dispatchAll s (handleBotWerewolfAction env s) =
             s\<lparr> lastKilledId := Some (player_id target),
                players := map (\<lambda>p. if player_id p = player_id target
                                     then p\<lparr> isDying := True \<rparr> else p) (players s) \<rparr>"
    by (simp add: upd_dying)
  with t show "\<exists>target \<in> set (players s). isAlive target \<and> role target \<noteq> WEREWOLF \<and>
           dispatchAll s (handleBotWerewolfAction env s) =
             s\<lparr> lastKilledId := Some (player_id target),
                players := map (\<lambda>p. if player_id p = player_id target
                                     then p\<lparr> isDying := True \<rparr> else p) (players s) \<rparr>"
    by blast
qed (simp_all add: handleBotWerewolfAction_def handleHumanAction_def truthy_def addLog_def
       upd_dying split: option.splits)

text \<open>
  Claim C7. The specification has the kill mark one alive player that is not a werewolf,
  on the bot path and on the human-confirmed path alike, and has it overwrite an earlier
  mark. The bot handler filters its targets by role. The human handler does not: a card
  can be selected when its player is alive and is not the human, whatever its role. In
  a game of eight with the werewolves \<open>p-0\<close>, the human, and \<open>p-1\<close>, the card of \<open>p-1\<close> can
  be selected, and confirming records \<open>p-1\<close> as \<open>lastKilledId\<close> and sets its \<open>isDying\<close>.
\<close>

theorem human_kill_marks_werewolf:
  "phase hunt8 = NIGHT_WEREWOLF
   \<and> length (players hunt8) = 8
   \<and> canSelect hunt8 (players hunt8 ! 1)
   \<and> player_id (players hunt8 ! 1) = ''p-1''
   \<and> isAlive (players hunt8 ! 1)
   \<and> role (players hunt8 ! 1) = WEREWOLF
   \<and> lastKilledId (dispatchAll hunt8 (fst (handleHumanAction env0 hunt8 (Some ''p-1''))))
        = Some ''p-1''
   \<and> map isDying (players (dispatchAll hunt8 (fst (handleHumanAction env0 hunt8 (Some ''p-1'')))))
        = [False, True, False, False, False, False, False, False]
   \<and> map role (players (dispatchAll hunt8 (fst (handleHumanAction env0 hunt8 (Some ''p-1'')))))
        = [WEREWOLF, WEREWOLF, SEER, WITCH, HUNTER, VILLAGER, VILLAGER, VILLAGER]
   \<and> phase (dispatchAll hunt8 (fst (handleHumanAction env0 hunt8 (Some ''p-1'')))) = NIGHT_SEER"
  by (simp add: hunt8_def game5_def table8_def seat_def canSelect_def isHumanTurn_def
        humanActsAs_def getHumanPlayer_def handleHumanAction_def truthy_def addLog_def
        applyUpdates_def noUpdates_def spread_def)

text \<open>
  Neither handler clears the mark of an earlier target: only \<open>lastKilledId\<close> is
  overwritten. With \<open>p-5\<close> marked, a kill of \<open>p-4\<close> leaves both dying. (NIGHT_START clears
  the marks, and each handler runs once a night.)
\<close>

lemma kill_keeps_earlier_mark:
  "lastKilledId marked8 = Some ''p-5''
   \<and> map isDying (players marked8) = [False, False, False, False, False, True, False, False]
   \<and> lastKilledId (dispatchAll marked8 (fst (handleHumanAction env0 marked8 (Some ''p-4''))))
        = Some ''p-4''
   \<and> map isDying (players (dispatchAll marked8 (fst (handleHumanAction env0 marked8 (Some ''p-4'')))))
        = [False, False, False, False, True, True, False, False]
   \<and> handleBotWerewolfAction env0 marked8
        = [SET_LAST_KILLED (Some ''p-4''),
           UPDATE_PLAYER ''p-4'' (noUpdates\<lparr> upd_isDying := Some True \<rparr>)]
   \<and> map isDying (players (dispatchAll marked8 (handleBotWerewolfAction env0 marked8)))
        = [False, False, False, False, True, True, False, False]"
  by (simp add: marked8_def game5_def seat_def getHumanPlayer_def handleHumanAction_def
        handleBotWerewolfAction_def pick_def env0_def truthy_def addLog_def
        applyUpdates_def noUpdates_def spread_def)

section \<open>Role distribution and shuffle\<close>

lemma digit_inj:
  assumes "d < 10" and "e < 10" and "''0123456789'' ! d = ''0123456789'' ! e"
  shows "d = e"
proof -
  have "distinct ''0123456789''" by simp
  moreover have "d < length ''0123456789''" "e < length ''0123456789''" using assms by simp_all
  ultimately show ?thesis using assms(3) by (simp only: nth_eq_iff_index_eq)
qed

lemma string_of_nat_small: "n < 10 \<Longrightarrow> string_of_nat n = [''0123456789'' ! n]"
  by (subst string_of_nat.simps) simp

lemma string_of_nat_big:
  "\<not> n < 10 \<Longrightarrow> string_of_nat n = string_of_nat (n div 10) @ [''0123456789'' ! (n mod 10)]"
  by (subst string_of_nat.simps) simp

lemma string_of_nat_0: "string_of_nat 0 = ''0''"
  by (subst string_of_nat.simps) simp

lemma string_of_nat_nonempty: "string_of_nat n \<noteq> []"
  by (subst string_of_nat.simps) simp

lemma string_of_nat_inj: "string_of_nat m = string_of_nat n \<Longrightarrow> m = n"
proof (induction m arbitrary: n rule: less_induct)
  case (less m)
  show ?case
  proof (cases "m < 10")
    case True
    show ?thesis
    proof (cases "n < 10")
      case n: True
      with True less.prems show ?thesis
        by (simp add: string_of_nat_small digit_inj)
    next
      case False
      with True less.prems string_of_nat_nonempty[of "n div 10"] show ?thesis
        by (simp add: string_of_nat_small string_of_nat_big)
    qed
  next
    case False
    show ?thesis
    proof (cases "n < 10")
      case True
      with False less.prems string_of_nat_nonempty[of "m div 10"] show ?thesis
        by (simp add: string_of_nat_small string_of_nat_big)
    next
      case n: False
      from False n less.prems
      have p: "string_of_nat (m div 10) = string_of_nat (n div 10)"
        and d: "''0123456789'' ! (m mod 10) = ''0123456789'' ! (n mod 10)"
        by (simp_all add: string_of_nat_big)
      have "m div 10 < m" using False by simp
      then have q: "m div 10 = n div 10" using less.IH p by blast
      have r: "m mod 10 = n mod 10" using d by (intro digit_inj) simp_all
      show ?thesis using q r by (metis div_mult_mod_eq)
    qed
  qed
qed

lemma newPlayers_ids:
  "map player_id (newPlayers nm n av names avs roles) = map (\<lambda>idx. ''p-'' @ string_of_nat idx) [0..<n]"
  by (simp add: newPlayers_def o_def)

lemma newPlayers_distinct: "distinct (map player_id (newPlayers nm n av names avs roles))"
  unfolding newPlayers_ids
  by (simp add: distinct_map inj_on_def string_of_nat_inj)

lemma newPlayers_ids_nonempty: "p \<in> set (newPlayers nm n av names avs roles) \<Longrightarrow> player_id p \<noteq> []"
  by (auto simp: newPlayers_def)

lemma newPlayers_ids_not_inherited:
  "p \<in> set (newPlayers nm n av names avs roles) \<Longrightarrow> player_id p \<notin> set objectPrototypeKeys"
  by (auto simp: newPlayers_def objectPrototypeKeys_def)

lemma pick_less: "0 < n \<Longrightarrow> pick env k n < n"
  by (simp add: pick_def)

lemma shuffleFrom_mset: "i < length xs \<Longrightarrow> mset (shuffleFrom env i xs) = mset xs"
proof (induction i arbitrary: xs)
  case 0
  show ?case by simp
next
  case (Suc i)
  let ?j = "pick env (Suc i) (Suc i + 1)"
  have j: "?j < length xs"
    using pick_less[of "Suc i + 1" env "Suc i"] Suc.prems by simp
  have sw: "mset (xs[Suc i := xs ! ?j, ?j := xs ! Suc i]) = mset xs"
    using mset_swap[OF j Suc.prems] .
  have "i < length (xs[Suc i := xs ! ?j, ?j := xs ! Suc i])"
    using Suc.prems by simp
  then have "mset (shuffleFrom env i (xs[Suc i := xs ! ?j, ?j := xs ! Suc i])) = mset xs"
    using Suc.IH sw by simp
  then show ?case by (simp add: Let_def)
qed

lemma shuffle_mset: "mset (shuffle env xs) = mset xs"
proof (cases xs)
  case Nil
  then show ?thesis by (simp add: shuffle_def)
next
  case (Cons x r)
  then show ?thesis by (simp add: shuffle_def shuffleFrom_mset)
qed

lemma shuffle_length: "length (shuffle env xs) = length xs"
  using shuffle_mset[of env xs] by (metis size_mset)

lemma newPlayers_roles:
  "length roles = n \<Longrightarrow> map role (newPlayers nm n av names avs roles) = roles"
  using map_nth[of roles] by (auto simp: newPlayers_def o_def)

text \<open>
  A game that \<open>handleStartGame\<close> starts has as many players as were asked for, with the
  roles of the planner in the order the shuffle left them, and the human in the first
  seat.
\<close>

lemma handleStartGame_roster:
  assumes "\<not> isBlank nm" and "getRoleDistribution tbl n = Inr roles" and "length roles = n"
  shows "\<exists>ps. handleStartGame tbl env nm n av names avs = Inr [START_GAME ps ''p-0'']
              \<and> length ps = n \<and> mset (map role ps) = mset roles"
proof -
  let ?ps = "newPlayers nm n av names avs (shuffle env roles)"
  have l: "length ?ps = n" by (simp add: newPlayers_def)
  have "6 \<le> n" using assms(2) by (auto simp: getRoleDistribution_def split: if_splits)
  then have "[0..<n] = 0 # [1..<n]" by (simp add: upt_rec)
  then have "player_id (?ps ! 0) = ''p-0''"
    by (simp add: newPlayers_def string_of_nat_0)
  then have "handleStartGame tbl env nm n av names avs = Inr [START_GAME ?ps ''p-0'']"
    using assms(1,2) by (simp add: handleStartGame_def Let_def)
  moreover have "mset (map role ?ps) = mset roles"
    by (simp add: newPlayers_roles shuffle_length assms(3) shuffle_mset)
  ultimately show ?thesis using l by blast
qed

section \<open>The roster over a run\<close>

text \<open>
  The players of a new game have distinct ids, none of them empty and none a property
  of \<^verbatim>\<open>Object.prototype\<close>, and no handler of a running game changes an id: the roster of
  every state of a run has the ids that the game started with.
\<close>

lemma no_rename_ids:
  "\<not> renames a \<Longrightarrow> map player_id (players (gameReducer s a)) = map player_id (players s)"
proof (cases a)
  case (UPDATE_PLAYER i u)
  assume "\<not> renames a"
  with UPDATE_PLAYER have "upd_id u = None" by simp
  then have "map player_id (map (\<lambda>p. if player_id p = i then applyUpdates p u else p) (players s))
             = map player_id (players s)"
    by (simp add: o_def applyUpdates_id if_distrib cong: if_cong)
  with UPDATE_PLAYER show ?thesis by simp
next
  case (SET_WITCH_POTION p used)
  then show ?thesis by (cases p) simp_all
qed simp_all

lemma dispatchAll_ids:
  "\<forall>a \<in> set as. \<not> renames a \<Longrightarrow>
   map player_id (players (dispatchAll s as)) = map player_id (players s)"
proof (induction as arbitrary: s)
  case Nil
  show ?case by simp
next
  case (Cons a as)
  have "map player_id (players (dispatchAll (gameReducer s a) as))
        = map player_id (players (gameReducer s a))"
    using Cons.IH Cons.prems by simp
  also have "\<dots> = map player_id (players s)"
    using Cons.prems by (simp add: no_rename_ids)
  finally show ?case by simp
qed

lemma run_ids:
  "map player_id (players (dispatchAll s (dispatched s evs))) = map player_id (players s)"
  using dispatched_benign by (intro dispatchAll_ids) blast

lemma started_run_ids_distinct:
  assumes "handleStartGame tbl env nm n av names avs = Inr [a]"
  shows "distinct (map player_id
           (players (dispatchAll (gameReducer s0 a) (dispatched (gameReducer s0 a) evs))))"
proof -
  from assms obtain roles where
    a: "a = START_GAME (newPlayers nm n av names avs roles)
              (player_id (newPlayers nm n av names avs roles ! 0))"
    by (auto simp: handleStartGame_def Let_def split: if_splits sum.splits)
  have "players (gameReducer s0 a) = newPlayers nm n av names avs roles"
    by (simp add: a)
  then show ?thesis
    by (simp add: run_ids newPlayers_distinct)
qed



end
